theory Spec2Isabelle
  imports Main "HOL-Library.Word" "HOL-Library.Log_Nat"
begin

section \<open>JavaScript values used by CameraSensor.js\<close>

subsection \<open>Numbers\<close>

text \<open>
  A JavaScript number is an IEEE 754 binary64 value. The finite ones are rationals; the
  arithmetic operators compute the exact result and round it to the nearest binary64 value,
  ties to even (\<open>fl\<close>). The sign of zero is not modelled: nothing in CameraSensor.js can
  tell \<open>-0\<close> from \<open>0\<close> except a division by it.
\<close>

datatype number = Num rat | PosInf | NegInf | NaN

definition pow2 :: "int \<Rightarrow> rat" where
  "pow2 k = (if 0 \<le> k then 2 ^ nat k else 1 / 2 ^ nat (- k))"

text \<open>\<open>ilog2 a\<close> is the binary exponent of a positive rational: \<open>2 ^ e \<le> a < 2 ^ (e + 1)\<close>.\<close>

definition ilog2 :: "rat \<Rightarrow> int" where
  "ilog2 a = (let (n, d) = quotient_of a; k = bitlen n - bitlen d
              in if pow2 k \<le> a then k else k - 1)"

definition roundHalfEven :: "rat \<Rightarrow> int" where
  "roundHalfEven q = (let f = \<lfloor>q\<rfloor>; d = q - of_int f
     in if d < 1 / 2 then f else if 1 / 2 < d then f + 1 else if even f then f else f + 1)"

text \<open>
  Rounding to binary64: 53 significant bits, the exponent at least \<open>-1022\<close> (below it the
  values are subnormal, with the spacing \<open>2 ^ -1074\<close>), and overflow to an infinity from
  \<open>2 ^ 1024 - 2 ^ 970\<close> on.
\<close>

definition fl :: "rat \<Rightarrow> number" where
  "fl x = (if x = 0 then Num 0 else
     let a = \<bar>x\<bar>;
         e = max (ilog2 a) (- 1022);
         ulp = pow2 (e - 52);
         m = roundHalfEven (a / ulp)
     in if 1024 \<le> e \<or> (e = 1023 \<and> m = 2 ^ 53) then (if 0 < x then PosInf else NegInf)
        else Num (if 0 < x then of_int m * ulp else - (of_int m * ulp)))"

definition inf_of_sign :: "bool \<Rightarrow> number" where
  "inf_of_sign positive = (if positive then PosInf else NegInf)"

text \<open>The operator \<open>*\<close> on numbers.\<close>

fun js_mul :: "number \<Rightarrow> number \<Rightarrow> number" where
  "js_mul (Num a) (Num b) = fl (a * b)"
| "js_mul NaN y = NaN"
| "js_mul x NaN = NaN"
| "js_mul (Num a) PosInf = (if a = 0 then NaN else inf_of_sign (0 < a))"
| "js_mul (Num a) NegInf = (if a = 0 then NaN else inf_of_sign (a < 0))"
| "js_mul PosInf (Num b) = (if b = 0 then NaN else inf_of_sign (0 < b))"
| "js_mul NegInf (Num b) = (if b = 0 then NaN else inf_of_sign (b < 0))"
| "js_mul PosInf PosInf = PosInf"
| "js_mul NegInf NegInf = PosInf"
| "js_mul PosInf NegInf = NegInf"
| "js_mul NegInf PosInf = NegInf"

text \<open>The operator \<open>+\<close> on numbers.\<close>

fun js_add :: "number \<Rightarrow> number \<Rightarrow> number" where
  "js_add (Num a) (Num b) = fl (a + b)"
| "js_add NaN y = NaN"
| "js_add x NaN = NaN"
| "js_add PosInf NegInf = NaN"
| "js_add NegInf PosInf = NaN"
| "js_add PosInf y = PosInf"
| "js_add NegInf y = NegInf"
| "js_add x PosInf = PosInf"
| "js_add x NegInf = NegInf"

text \<open>The operator \<open>/\<close> on numbers; a zero divisor is taken as \<open>+0\<close>.\<close>

fun js_div :: "number \<Rightarrow> number \<Rightarrow> number" where
  "js_div (Num a) (Num b) =
     (if b = 0 then (if a = 0 then NaN else inf_of_sign (0 < a)) else fl (a / b))"
| "js_div NaN y = NaN"
| "js_div x NaN = NaN"
| "js_div (Num a) PosInf = Num 0"
| "js_div (Num a) NegInf = Num 0"
| "js_div PosInf (Num b) = inf_of_sign (0 \<le> b)"
| "js_div NegInf (Num b) = inf_of_sign (b < 0)"
| "js_div PosInf PosInf = NaN"
| "js_div PosInf NegInf = NaN"
| "js_div NegInf PosInf = NaN"
| "js_div NegInf NegInf = NaN"

text \<open>An integer below \<open>2 ^ 53\<close> is a number as it stands (pixel dimensions, bytes).\<close>

definition number_of :: "nat \<Rightarrow> number" where
  "number_of n = Num (of_nat n)"

text \<open>A property that may be absent reads as \<open>undefined\<close>, which arithmetic turns into NaN.\<close>

definition toNumber :: "number option \<Rightarrow> number" where
  "toNumber v = (case v of None \<Rightarrow> NaN | Some x \<Rightarrow> x)"

subsection \<open>Bytes and typed arrays\<close>

type_synonym byte = "8 word"

text \<open>
  Storing a number into a \<open>Uint8Array\<close> applies ToUint8: NaN and the infinities become 0,
  a finite value is truncated towards zero and reduced modulo 256.
\<close>

definition js_trunc :: "rat \<Rightarrow> int" where
  "js_trunc x = (if 0 \<le> x then \<lfloor>x\<rfloor> else \<lceil>x\<rceil>)"

definition toUint8 :: "number \<Rightarrow> byte" where
  "toUint8 v = (case v of Num x \<Rightarrow> word_of_int (js_trunc x) | _ \<Rightarrow> 0)"

text \<open>
  \<open>p[b]\<close> on a \<open>Uint8Array\<close>, used as an operand of \<open>*\<close>: the element when the index is in
  range, and \<open>undefined\<close> (NaN in arithmetic) otherwise.
\<close>

definition readByte :: "byte list \<Rightarrow> int \<Rightarrow> number" where
  "readByte p b = (if 0 \<le> b \<and> b < int (length p) then number_of (unat (p ! nat b)) else NaN)"

text \<open>
  \<open>i << 2\<close>: the left operand is converted to a 32-bit integer, shifted within 32 bits, and
  the result is read as a signed 32-bit integer.
\<close>

definition shl2 :: "nat \<Rightarrow> int" where
  "shl2 i = sint (push_bit 2 (word_of_nat i :: 32 word))"

subsection \<open>Strings\<close>

definition digit_char :: "nat \<Rightarrow> char" where
  "digit_char d = char_of (48 + d)"

text \<open>The decimal string of a non-negative integer, as string concatenation produces it.\<close>

fun string_of_nat :: "nat \<Rightarrow> string" where
  "string_of_nat n =
     (if n < 10 then [digit_char n] else string_of_nat (n div 10) @ [digit_char (n mod 10)])"

declare string_of_nat.simps [simp del]

text \<open>
  A number as string concatenation and lodash's \<open>toString\<close> print it. A natural number below
  \<open>2 ^ 53\<close> is printed as its decimal digits. The text of every other number (a fraction, a
  negative number, a number from \<open>2 ^ 53\<close> on, for which the language prints the shortest
  digits that give the number back, and from \<open>1e21\<close> on an exponent, NaN and the infinities)
  is not computed here: it is what the parameter \<open>printed\<close> gives, of which nothing is
  assumed.
\<close>

definition toString :: "(number \<Rightarrow> string) \<Rightarrow> number \<Rightarrow> string" where
  "toString printed x =
     (case x of
        Num q \<Rightarrow> if 0 \<le> q \<and> q < 2 ^ 53 \<and> of_int \<lfloor>q\<rfloor> = q then string_of_nat (nat \<lfloor>q\<rfloor>)
                 else printed x
      | _ \<Rightarrow> printed x)"

text \<open>
  \<open>_.padStart(string, length, chars)\<close> of lodash, which \<open>util/util\<close> re-exports: when the
  string is shorter than \<open>length\<close>, the padding (\<open>chars\<close> repeated and cut to the missing
  length) is put in front of it.
\<close>

definition padStart :: "string \<Rightarrow> nat \<Rightarrow> string \<Rightarrow> string" where
  "padStart s len chars =
     (if length s < len
      then take (len - length s) (concat (replicate (len - length s) chars)) @ s
      else s)"

section \<open>The grayscale conversion of \<open>__getFrame\<close>\<close>

text \<open>
  \<^verbatim>\<open>
  var ngraypixels = p.length / 4;
  for (var i = 0; i < ngraypixels; i++) {
    var b = i << 2;  // 4 * i
    p[i] = 0.2126 * p[b] + 0.7152 * p[b+1] + 0.0722 * p[b+2];
  }
  pixels = p.slice(0, ngraypixels).buffer;
  \<close>
  The three literals are the binary64 values nearest to the decimals.
\<close>

definition luma :: "number \<Rightarrow> number \<Rightarrow> number \<Rightarrow> number" where
  "luma r g b =
     js_add (js_add (js_mul (fl (2126 / 10000)) r) (js_mul (fl (7152 / 10000)) g))
            (js_mul (fl (722 / 10000)) b)"

text \<open>
  The loop keeps, beside the array, the list of its accesses to the array in the order in
  which they happen: the right-hand side is evaluated (three reads) before the store.
\<close>

datatype access = Read int | Write nat

function gray_loop :: "rat \<Rightarrow> nat \<Rightarrow> byte list \<Rightarrow> access list \<Rightarrow> byte list \<times> access list" where
  "gray_loop ngraypixels i p acc =
     (if of_nat i < ngraypixels then
        let b = shl2 i;
            v = luma (readByte p b) (readByte p (b + 1)) (readByte p (b + 2))
        in gray_loop ngraypixels (i + 1) (p[i := toUint8 v])
             (acc @ [Read b, Read (b + 1), Read (b + 2), Write i])
      else (p, acc))"
  by pat_completeness auto
termination
proof (relation "measure (\<lambda>(n, i, p, acc). nat \<lceil>n\<rceil> - i)")
  show "wf (measure (\<lambda>(n :: rat, i :: nat, p :: byte list, acc :: access list). nat \<lceil>n\<rceil> - i))"
    by simp
next
  fix ngraypixels :: rat and i :: nat and p :: "byte list" and acc :: "access list"
    and x :: int and xa :: number
  assume "of_nat i < ngraypixels"
  then have "int i < \<lceil>ngraypixels\<rceil>"
    by (simp add: less_ceiling_iff)
  then have "i < nat \<lceil>ngraypixels\<rceil>"
    by linarith
  then show "((ngraypixels, i + 1, p[i := toUint8 xa],
               acc @ [Read x, Read (x + 1), Read (x + 2), Write i]),
              (ngraypixels, i, p, acc))
             \<in> measure (\<lambda>(n, i, p, acc). nat \<lceil>n\<rceil> - i)"
    by simp
qed

declare gray_loop.simps [simp del]

text \<open>
  \<open>p.slice(0, ngraypixels)\<close> converts its end to an integer by truncation; \<open>.buffer\<close> of the
  fresh array is exactly its bytes.
\<close>

definition gray :: "byte list \<Rightarrow> byte list" where
  "gray p =
     (let ngraypixels = (of_nat (length p) / 4 :: rat)
      in take (nat (js_trunc ngraypixels)) (fst (gray_loop ngraypixels 0 p [])))"

definition gray_accesses :: "byte list \<Rightarrow> access list" where
  "gray_accesses p = snd (gray_loop (of_nat (length p) / 4) 0 p [])"

text \<open>The value the loop stores at \<open>i\<close>, computed from the array as it is at that time.\<close>

definition stored :: "byte list \<Rightarrow> nat \<Rightarrow> byte" where
  "stored p i =
     toUint8 (luma (readByte p (shl2 i)) (readByte p (shl2 i + 1)) (readByte p (shl2 i + 2)))"

text \<open>The luma of pixel \<open>i\<close> of an array, as the loop computes it from that array.\<close>

definition pixel_luma :: "byte list \<Rightarrow> nat \<Rightarrow> byte" where
  "pixel_luma p i =
     toUint8 (luma (number_of (unat (p ! (4 * i)))) (number_of (unat (p ! (4 * i + 1))))
                   (number_of (unat (p ! (4 * i + 2)))))"

text \<open>
  A list of accesses in which no read is at an index that an earlier write has written;
  \<open>W\<close> is the set of indices written before the list starts.
\<close>

fun reads_unwritten :: "nat set \<Rightarrow> access list \<Rightarrow> bool" where
  "reads_unwritten W [] = True"
| "reads_unwritten W (Read b # tr) = (b \<notin> int ` W \<and> reads_unwritten W tr)"
| "reads_unwritten W (Write i # tr) = reads_unwritten (insert i W) tr"

text \<open>
  The formula of the specification, \<open>0.2126 R + 0.7152 G + 0.0722 B\<close> truncated to a byte,
  read in exact arithmetic (not what the code computes: it is here to be compared with it).
\<close>

definition exact_luma :: "byte \<Rightarrow> byte \<Rightarrow> byte \<Rightarrow> byte" where
  "exact_luma r g b =
     word_of_int \<lfloor>(2126 * rat_of_nat (unat r) + 7152 * rat_of_nat (unat g)
                    + 722 * rat_of_nat (unat b)) / 10000\<rfloor>"

section \<open>The objects CameraSensor works on\<close>

text \<open>
  A property that holds a flag is a boolean or \<open>undefined\<close>; \<open>truthy\<close> is the coercion that
  \<open>!!\<close> and \<open>if\<close> apply.
\<close>

datatype jsval = Undefined | Bool bool

definition truthy :: "jsval \<Rightarrow> bool" where
  "truthy v = (case v of Undefined \<Rightarrow> False | Bool b \<Rightarrow> b)"

text \<open>
  An exception that ends a call: a \<open>TypeError\<close> of the language (a property read on
  \<open>undefined\<close>), or whatever a collaborator (the renderer, the camera library, the renderer
  factory) throws.
\<close>

datatype exn = TypeError | Thrown string

type_synonym vec3 = "number \<times> number \<times> number"

text \<open>
  The sensor configuration. An optional property is \<open>None\<close> when absent. \<open>width\<close> and
  \<open>height\<close> are the properties the documentation comment of the constructor lists;
  \<open>cameraArrayShape\<close> is the property the constructor adds to the renderer's copy.
\<close>

record config =
  cfg_name :: string
  cfg_type :: "string option"
  cfg_datatype :: "string option"
  position :: "vec3 list"
  orientation :: "vec3 list option"
  resolution :: "nat \<times> nat"
  cfg_encoding :: string
  fov :: "number option"
  near :: "number option"
  far :: "number option"
  cfg_isEquirectangular :: jsval
  cfg_renderer :: "string option"
  cfg_width :: "nat option"
  cfg_height :: "nat option"
  cameraArrayShape :: "nat list option"

text \<open>
  The camera (\<open>gfx/Camera\<close>, a perspective camera of the graphics library): the properties
  the sensor reads and writes. \<open>userData_shape\<close> and \<open>userData_imageShape\<close> are
  \<open>userData.shape\<close> and \<open>userData.imageShape\<close> of an array camera.
\<close>

record camera =
  cam_fov :: number
  aspect :: number
  cam_near :: number
  cam_far :: number
  cam_position :: vec3
  cam_target :: "vec3 option"
  cam_name :: string
  isEquirectangular :: jsval
  isArrayCamera :: bool
  userData_shape :: "nat list"
  userData_imageShape :: "nat \<times> nat"

text \<open>
  The scene state: the object handed to \<open>getFrame\<close>. It is itself a scene (it has a name and
  can be rendered) and may carry a debug node and a nested full scene.
\<close>

record node =
  visible :: jsval

record scene =
  scene_name :: string

record sceneState = scene +
  debugNode :: "node option"
  fullScene :: "scene option"

text \<open>What a frame carries as its data.\<close>

datatype payload = Null | ArrayBuffer "byte list" | Returned string

text \<open>
  A \<open>Uint8Array\<close> as the renderer returns it: its elements, and \<open>.buffer\<close>, the bytes of the
  whole \<open>ArrayBuffer\<close> under it, of which the elements may be only a part.
\<close>

record typedArray =
  elements :: "byte list"
  buffer :: "byte list"

text \<open>
  The renderer: its size and its drawing methods. A method is given the scene and the camera
  it is called with, and, first, the scene state as it is at the time of the call (what the
  renderer can see through the scene graph, the debug node's visibility included); it returns
  its value or throws. Drawing is taken not to write to the scene state, to the sensor or to
  the renderer's size.
\<close>

record renderer =
  width :: nat
  height :: nat
  renderToRawPixels :: "sceneState \<Rightarrow> scene \<Rightarrow> camera \<Rightarrow> exn + typedArray"
  renderToBuffer :: "sceneState \<Rightarrow> scene \<Rightarrow> camera \<Rightarrow> exn + payload"
  renderToPng :: "sceneState \<Rightarrow> scene \<Rightarrow> camera \<Rightarrow> string \<Rightarrow> exn + payload"
  render :: "sceneState \<Rightarrow> scene \<Rightarrow> camera \<Rightarrow> exn + payload"

text \<open>The calls a function makes on its collaborators and the console, in order.\<close>

datatype event =
    ConsoleLog string
  | ConsoleError string
  | RenderToRawPixels sceneState scene camera
  | RenderToBuffer sceneState scene camera
  | RenderToPng sceneState scene camera string
  | Render sceneState scene camera
  | RendererSetSize nat nat
  | UpdateMatrix camera
  | UpdateProjectionMatrix camera
  | LookAt vec3
  | ResizeCameras nat nat
  | CreateArrayCamera config
  | GetRenderer config

record frame =
  frame_type :: string
  data :: payload
  encoding :: string
  shape :: "nat list"

text \<open>
  The sensor. \<open>name\<close> and \<open>config\<close> are set by the base constructor \<open>Sensor\<close>; the frame
  counter is a number like any other.
\<close>

record sensor =
  name :: string
  config :: config
  showDebugNode :: bool
  camera :: camera
  renderer :: renderer
  numFramesRendered :: number

section \<open>\<open>CameraSensor.prototype.__getFrame\<close> and \<open>getFrame\<close>\<close>

text \<open>The object \<open>sceneState.fullScene || sceneState\<close>.\<close>

definition scene_of :: "sceneState \<Rightarrow> scene" where
  "scene_of sceneState =
     (case fullScene sceneState of Some full \<Rightarrow> full | None \<Rightarrow> scene.truncate sceneState)"

definition pngfile_name :: "string \<Rightarrow> string \<Rightarrow> string" where
  "pngfile_name sceneId sensorName = sceneId @ ''_'' @ sensorName @ ''.png''"

definition pngseq_name :: "(number \<Rightarrow> string) \<Rightarrow> string \<Rightarrow> string \<Rightarrow> number \<Rightarrow> string" where
  "pngseq_name printed sceneId sensorName counter =
     sceneId @ ''_'' @ sensorName @ ''_'' @ padStart (toString printed counter) 5 ''0''
       @ ''.png''"

text \<open>
  The switch of \<open>__getFrame\<close>: the pixels (or the exception of the renderer), the number of
  channels and the calls made.
\<close>

definition capture ::
  "(number \<Rightarrow> string) \<Rightarrow> sensor \<Rightarrow> sceneState \<Rightarrow> (exn + payload \<times> nat) \<times> event list" where
  "capture printed this sceneState =
     (let scene = scene_of sceneState;
          renderer = renderer this;
          encoding = cfg_encoding (config this);
          sceneId = scene_name scene;
          camera = camera this
      in if encoding = ''rgba'' then
           (map_sum id (\<lambda>p. (ArrayBuffer (buffer p), 4))
              (renderToRawPixels renderer sceneState scene camera),
            [RenderToRawPixels sceneState scene camera])
         else if encoding = ''gray'' then
           (map_sum id (\<lambda>p. (ArrayBuffer (gray (elements p)), 1))
              (renderToRawPixels renderer sceneState scene camera),
            [RenderToRawPixels sceneState scene camera])
         else if encoding = ''pngbuf'' then
           (map_sum id (\<lambda>v. (v, 4)) (renderToBuffer renderer sceneState scene camera),
            [RenderToBuffer sceneState scene camera])
         else if encoding = ''pngfile'' then
           (let pngfile = pngfile_name sceneId (name this)
            in (map_sum id (\<lambda>v. (v, 4)) (renderToPng renderer sceneState scene camera pngfile),
                [RenderToPng sceneState scene camera pngfile]))
         else if encoding = ''pngseq'' then
           (let pngseq = pngseq_name printed sceneId (name this) (numFramesRendered this)
            in (map_sum id (\<lambda>v. (v, 4)) (renderToPng renderer sceneState scene camera pngseq),
                [RenderToPng sceneState scene camera pngseq]))
         else if encoding = ''screen'' then
           (map_sum id (\<lambda>v. (v, 4)) (render renderer sceneState scene camera),
            [Render sceneState scene camera])
         else
           (Inr (Null, 4), [ConsoleError (''Invalid encoding: '' @ encoding)]))"

definition getFrame_inner ::
  "(number \<Rightarrow> string) \<Rightarrow> sensor \<Rightarrow> sceneState \<Rightarrow> (exn + frame) \<times> event list" where
  "getFrame_inner printed this sceneState =
     (case capture printed this sceneState of
        (Inl e, calls) \<Rightarrow> (Inl e, calls)
      | (Inr (pixels, numChannels), calls) \<Rightarrow>
          (Inr \<lparr>frame_type = ''color'', data = pixels, encoding = cfg_encoding (config this),
                shape = [width (renderer this), height (renderer this), numChannels]\<rparr>,
           calls))"

text \<open>
  \<open>getFrame\<close>. Its outcome: the frame returned (or the exception that ended the call), the
  sensor and the scene state as the call leaves them, and the calls made. The counter's \<open>++\<close>
  is the addition of 1 to a number.
\<close>

record outcome =
  result :: "exn + frame"
  this_after :: sensor
  sceneState_after :: sceneState
  events :: "event list"

text \<open>\<open>sceneState.debugNode.visible = v\<close>, under \<open>if (sceneState.debugNode)\<close>.\<close>

definition set_visible :: "jsval \<Rightarrow> sceneState \<Rightarrow> sceneState" where
  "set_visible v sceneState =
     (case debugNode sceneState of
        Some n \<Rightarrow> sceneState\<lparr>debugNode := Some (n\<lparr>visible := v\<rparr>)\<rparr>
      | None \<Rightarrow> sceneState)"

definition getFrame :: "(number \<Rightarrow> string) \<Rightarrow> sensor \<Rightarrow> sceneState \<Rightarrow> outcome" where
  "getFrame printed this sceneState =
     (let debugNodeVisibility =
            (case debugNode sceneState of Some n \<Rightarrow> visible n | None \<Rightarrow> Undefined);
          sceneState1 = set_visible (Bool (showDebugNode this)) sceneState
      in case getFrame_inner printed this sceneState1 of
           (Inl e, calls) \<Rightarrow>
             \<lparr>result = Inl e, this_after = this, sceneState_after = sceneState1,
              events = calls\<rparr>
         | (Inr frame, calls) \<Rightarrow>
             \<lparr>result = Inr frame,
              this_after = this\<lparr>numFramesRendered := js_add (numFramesRendered this) (Num 1)\<rparr>,
              sceneState_after = set_visible debugNodeVisibility sceneState1,
              events = calls\<rparr>)"

text \<open>The scene state a drawing call was made in; no value for the other calls.\<close>

definition seen_by_renderer :: "event \<Rightarrow> sceneState option" where
  "seen_by_renderer e =
     (case e of
        RenderToRawPixels st sc cam \<Rightarrow> Some st
      | RenderToBuffer st sc cam \<Rightarrow> Some st
      | RenderToPng st sc cam file \<Rightarrow> Some st
      | Render st sc cam \<Rightarrow> Some st
      | _ \<Rightarrow> None)"

section \<open>The accessors and \<open>setSize\<close>\<close>

definition getShape :: "sensor \<Rightarrow> nat list" where
  "getShape this = [width (renderer this), height (renderer this), 4]"

definition getDataRange :: "sensor \<Rightarrow> nat list" where
  "getDataRange this = [0, 255]"

record metadata =
  md_name :: string
  md_type :: "string option"
  md_shape :: "nat list"
  dataType :: string
  dataRange :: "nat list"

text \<open>\<open>this.config.datatype || 'uint8'\<close>: an absent or empty string gives the default.\<close>

definition getMetadata :: "sensor \<Rightarrow> metadata" where
  "getMetadata this =
     \<lparr>md_name = name this,
      md_type = cfg_type (config this),
      md_shape = getShape this,
      dataType = (case cfg_datatype (config this) of
                    None \<Rightarrow> ''uint8''
                  | Some d \<Rightarrow> if d = [] then ''uint8'' else d),
      dataRange = getDataRange this\<rparr>"

text \<open>The line \<open>setSize\<close> writes to the console.\<close>

definition resize_log :: "(number \<Rightarrow> string) \<Rightarrow> string \<Rightarrow> nat \<Rightarrow> nat \<Rightarrow> event" where
  "resize_log printed sensorName w h =
     ConsoleLog (''resize sensor '' @ sensorName @ '' to '' @ toString printed (number_of w)
                 @ ''x'' @ toString printed (number_of h))"

text \<open>
  \<open>setSize\<close>. What \<open>renderer.setSize\<close> does to the renderer is the renderer's business: it is
  the parameter \<open>rendererSetSize\<close>. The result is the value returned (none), the sensor after
  the call and the calls made.
\<close>

definition setSize ::
  "(number \<Rightarrow> string) \<Rightarrow> (nat \<Rightarrow> nat \<Rightarrow> renderer \<Rightarrow> renderer) \<Rightarrow> sensor \<Rightarrow> nat \<Rightarrow> nat
     \<Rightarrow> jsval \<times> sensor \<times> event list" where
  "setSize printed rendererSetSize this w h =
     (let log = resize_log printed (name this) w h;
          cam = (camera this)\<lparr>aspect := js_div (number_of w) (number_of h)\<rparr>;
          resizeCams = (if isArrayCamera cam then [ResizeCameras w h] else []);
          differs = (width (renderer this) \<noteq> w \<or> height (renderer this) \<noteq> h)
      in (Undefined,
          this\<lparr>camera := cam,
               renderer := (if differs then rendererSetSize w h (renderer this)
                            else renderer this)\<rparr>,
          [log, UpdateProjectionMatrix cam] @ resizeCams
            @ (if differs then [RendererSetSize w h] else [])))"

section \<open>The constructor\<close>

text \<open>
  The constructor works on three configuration objects: the caller's \<open>config\<close>, the working
  copy \<open>cameraConfig\<close> and, for an array camera, the clone made for the renderer. The
  variable \<open>rendererConfig\<close> is a reference to the first or to the third, so the objects live in
  a store and every assignment to a property goes through a reference.
\<close>

datatype ref = Caller | Working | Clone

type_synonym store = "ref \<Rightarrow> config"

definition assign :: "ref \<Rightarrow> (config \<Rightarrow> config) \<Rightarrow> store \<Rightarrow> store" where
  "assign r f heap = heap(r := f (heap r))"

text \<open>The constants of the module \<open>Constants\<close> that the constructor reads.\<close>

record constants =
  metersToVirtualUnit :: number
  isBrowser :: bool

text \<open>
  The options: the debug flag as the caller gave it, and the renderer factory (which is
  handed the options again; they are fixed, so the model leaves that argument out).
\<close>

record opts =
  opt_showDebugNode :: jsval
  getRenderer :: "config \<Rightarrow> exn + renderer"

text \<open>
  The code of the graphics side that the constructor and \<open>setSize\<close> call and whose effect
  they do not determine: the array camera factory and the renderer's own \<open>setSize\<close>.
\<close>

record library =
  createArrayCamera :: "config \<Rightarrow> exn + camera"
  rendererSetSize :: "nat \<Rightarrow> nat \<Rightarrow> renderer \<Rightarrow> renderer"

text \<open>
  \<open>_.defaults(Object.create(null), config, {fov: 45, near: 0.001, far: 20})\<close>: a fresh object
  with the properties of \<open>config\<close>, and the three defaults where \<open>config\<close> has none.
\<close>

definition defaults :: "config \<Rightarrow> config" where
  "defaults c =
     c\<lparr>fov := (case fov c of None \<Rightarrow> Some (Num 45) | Some v \<Rightarrow> Some v),
       near := (case near c of None \<Rightarrow> Some (fl (1 / 1000)) | Some v \<Rightarrow> Some v),
       far := (case far c of None \<Rightarrow> Some (Num 20) | Some v \<Rightarrow> Some v)\<rparr>"

text \<open>Lines 24 to 33: the working copy, stored under \<open>Working\<close>.\<close>

definition make_cameraConfig :: "constants \<Rightarrow> store \<Rightarrow> store" where
  "make_cameraConfig Constants heap =
     (let heap1 = heap(Working := defaults (heap Caller));
          heap2 = assign Working (\<lambda>c. c\<lparr>near :=
                    Some (js_mul (toNumber (near c)) (metersToVirtualUnit Constants))\<rparr>) heap1;
          heap3 = assign Working (\<lambda>c. c\<lparr>far :=
                    Some (js_mul (toNumber (far c)) (metersToVirtualUnit Constants))\<rparr>) heap2;
          heap4 = assign Working (\<lambda>c. c\<lparr>cfg_width := Some (fst (resolution c))\<rparr>) heap3
      in assign Working (\<lambda>c. c\<lparr>cfg_height := Some (snd (resolution c))\<rparr>) heap4)"

text \<open>
  Modelled from the spec: the constructor of \<open>gfx/Camera\<close>, which is not among the sources.
  \<open>new Camera(fov, aspect, near, far)\<close> is a single perspective camera "with the given
  fov/aspect/near/far": at the origin, with no target, no name and no array layout.
\<close>

definition new_Camera :: "number \<Rightarrow> number \<Rightarrow> number \<Rightarrow> number \<Rightarrow> camera" where
  "new_Camera f a n fr =
     \<lparr>cam_fov = f, aspect = a, cam_near = n, cam_far = fr,
      cam_position = (Num 0, Num 0, Num 0), cam_target = None, cam_name = [],
      isEquirectangular = Undefined, isArrayCamera = False,
      userData_shape = [], userData_imageShape = (0, 0)\<rparr>"

definition vadd :: "vec3 \<Rightarrow> vec3 \<Rightarrow> vec3" where
  "vadd u v = (case (u, v) of ((a, b, c), (x, y, z)) \<Rightarrow> (js_add a x, js_add b y, js_add c z))"

definition dimension :: "nat option \<Rightarrow> number" where
  "dimension d = toNumber (map_option number_of d)"

text \<open>
  Lines 34 to 59: the camera, and the reference \<open>rendererConfig\<close>. Reading \<open>position[0]\<close> of
  an empty list, or \<open>orientation[0]\<close> of an empty list, gives \<open>undefined\<close>, on which the
  vector operations of the camera library raise a \<open>TypeError\<close>.
\<close>

definition make_camera ::
  "constants \<Rightarrow> library \<Rightarrow> store \<Rightarrow> (exn + camera \<times> ref) \<times> store \<times> event list" where
  "make_camera Constants lib heap =
     (let cameraConfig = heap Working
      in if 1 < length (position cameraConfig) then
           (case createArrayCamera lib cameraConfig of
              Inl e \<Rightarrow> (Inl e, heap, [CreateArrayCamera cameraConfig])
            | Inr cam \<Rightarrow>
                let rendererConfig = Clone;
                    heap1 = heap(rendererConfig := heap Caller);
                    heap2 = assign rendererConfig
                              (\<lambda>c. c\<lparr>cameraArrayShape := Some (userData_shape cam)\<rparr>) heap1;
                    heap3 = assign rendererConfig
                              (\<lambda>c. c\<lparr>resolution := userData_imageShape cam\<rparr>) heap2;
                    heap4 = (if \<not> isBrowser Constants
                                \<and> cfg_renderer (heap3 rendererConfig) = Some ''main''
                             then assign rendererConfig (\<lambda>c. c\<lparr>cfg_renderer := None\<rparr>) heap3
                             else heap3)
                in (Inr (cam, rendererConfig), heap4, [CreateArrayCamera cameraConfig]))
         else
           (let cam = new_Camera (toNumber (fov cameraConfig))
                        (js_div (dimension (cfg_width cameraConfig))
                                (dimension (cfg_height cameraConfig)))
                        (toNumber (near cameraConfig)) (toNumber (far cameraConfig))
            in case position cameraConfig of
                 [] \<Rightarrow> (Inl TypeError, heap, [])
               | camPos # rest \<Rightarrow>
                   (let cam1 = cam\<lparr>cam_position := camPos\<rparr>
                    in case orientation cameraConfig of
                         None \<Rightarrow>
                           (Inr (cam1, Caller), heap,
                            [UpdateMatrix cam1, UpdateProjectionMatrix cam1])
                       | Some [] \<Rightarrow> (Inl TypeError, heap, [])
                       | Some (dir # dirs) \<Rightarrow>
                           (let target = vadd (cam_position cam1) dir;
                                cam2 = cam1\<lparr>cam_target := Some target\<rparr>
                            in (Inr (cam2, Caller), heap,
                                [LookAt target, UpdateMatrix cam2,
                                 UpdateProjectionMatrix cam2])))))"

text \<open>
  Lines 63 to 67: the "weird resizing". The renderer's size is compared with the properties
  \<open>width\<close> and \<open>height\<close> of the object \<open>rendererConfig\<close> refers to; an absent property is
  \<open>undefined\<close>, which no number is equal to.
\<close>

definition needs_resize :: "renderer \<Rightarrow> config \<Rightarrow> bool" where
  "needs_resize r rendererConfig =
     (Some (width r) \<noteq> cfg_width rendererConfig \<or> Some (height r) \<noteq> cfg_height rendererConfig)"

text \<open>
  Modelled from the spec: the base constructor \<open>Sensor\<close> (\<open>sim/sensors/Sensor\<close>, which is
  not among the sources) "defines sensor identity/config contract": it gives the sensor its
  \<open>name\<close>, the name of the configuration, and its \<open>config\<close>, the configuration.
\<close>

definition Sensor :: "config \<Rightarrow> string \<times> config" where
  "Sensor cfg = (cfg_name cfg, cfg)"

text \<open>
  The constructor. The store holds the caller's configuration under \<open>Caller\<close>; the result is
  the sensor (or the exception), the store as the constructor leaves it, and the calls made.
  Until its last line the sensor has no frame counter: the property is \<open>undefined\<close>, NaN to
  whoever would read it as a number (\<open>setSize\<close> does not).
\<close>

definition CameraSensor ::
  "(number \<Rightarrow> string) \<Rightarrow> constants \<Rightarrow> library \<Rightarrow> store \<Rightarrow> opts
     \<Rightarrow> (exn + sensor) \<times> store \<times> event list" where
  "CameraSensor printed Constants lib heap opts =
     (let config = heap Caller;
          heap1 = make_cameraConfig Constants heap
      in case make_camera Constants lib heap1 of
           (Inl e, heap2, calls) \<Rightarrow> (Inl e, heap2, calls)
         | (Inr (cam, rendererConfig), heap2, calls) \<Rightarrow>
             (let cam1 = cam\<lparr>cam_name := cfg_name (heap2 Caller),
                             isEquirectangular := cfg_isEquirectangular (heap2 Working)\<rparr>;
                  call = GetRenderer (heap2 rendererConfig)
              in case getRenderer opts (heap2 rendererConfig) of
                   Inl e \<Rightarrow> (Inl e, heap2, calls @ [call])
                 | Inr r \<Rightarrow>
                     (let this = \<lparr>name = fst (Sensor config), config = snd (Sensor config),
                                  showDebugNode = truthy (opt_showDebugNode opts),
                                  camera = cam1, renderer = r, numFramesRendered = NaN\<rparr>;
                          (this1, calls1) =
                             (if needs_resize r (heap2 rendererConfig)
                              then (case setSize printed (rendererSetSize lib) this (width r)
                                           (height r)
                                    of (u, t, ev) \<Rightarrow> (t, ev))
                              else (this, []))
                      in (Inr (this1\<lparr>numFramesRendered := Num 0\<rparr>), heap2,
                          calls @ [call] @ calls1))))"

text \<open>
  In closed form: the working copy the constructor makes of a configuration, and the copy it
  hands to the renderer factory for an array camera \<open>cam\<close>.
\<close>

definition cameraConfig_of :: "constants \<Rightarrow> config \<Rightarrow> config" where
  "cameraConfig_of Constants c =
     c\<lparr>fov := Some (case fov c of None \<Rightarrow> Num 45 | Some v \<Rightarrow> v),
       near := Some (js_mul (case near c of None \<Rightarrow> fl (1 / 1000) | Some v \<Rightarrow> v)
                      (metersToVirtualUnit Constants)),
       far := Some (js_mul (case far c of None \<Rightarrow> Num 20 | Some v \<Rightarrow> v)
                     (metersToVirtualUnit Constants)),
       cfg_width := Some (fst (resolution c)),
       cfg_height := Some (snd (resolution c))\<rparr>"


section \<open>Concrete objects\<close>

text \<open>
  A sensor \<open>cam0\<close> with a 2 by 1 renderer whose raw pixels are a white pixel and the pixel
  \<open>(0, 28, 152)\<close>, and a scene \<open>scene1\<close> with a visible debug node. The theorems below are
  instantiated on them.
\<close>

definition example_config :: "string \<Rightarrow> config" where
  "example_config enc =
     \<lparr>cfg_name = ''cam0'', cfg_type = Some ''color'', cfg_datatype = None,
      position = [(Num 0, Num (1 / 2), Num 0)], orientation = Some [(Num 0, Num 0, Num (- 1))],
      resolution = (2, 1), cfg_encoding = enc, fov = None, near = None, far = None,
      cfg_isEquirectangular = Undefined, cfg_renderer = Some ''main'',
      cfg_width = None, cfg_height = None, cameraArrayShape = None\<rparr>"

definition example_renderer :: "nat \<Rightarrow> nat \<Rightarrow> byte list \<Rightarrow> renderer" where
  "example_renderer w h pixels =
     \<lparr>width = w, height = h,
      renderToRawPixels = (\<lambda>st sc cam. Inr \<lparr>elements = pixels, buffer = pixels\<rparr>),
      renderToBuffer = (\<lambda>st sc cam. Inr (Returned ''png bytes'')),
      renderToPng = (\<lambda>st sc cam file. Inr (Returned file)),
      render = (\<lambda>st sc cam. Inr Null)\<rparr>"

definition example_camera :: camera where
  "example_camera = new_Camera (Num 45) (Num 2) (Num (1 / 10)) (Num 2000)"

definition example_sensor :: "string \<Rightarrow> nat \<Rightarrow> sensor" where
  "example_sensor enc counter =
     \<lparr>name = ''cam0'', config = example_config enc, showDebugNode = False,
      camera = example_camera,
      renderer = example_renderer 2 1 [255, 255, 255, 255, 0, 28, 152, 9],
      numFramesRendered = number_of counter\<rparr>"

text \<open>
  A text for the numbers \<open>toString\<close> does not compute, and a sensor like the one above whose
  renderer has lost its drawing context and throws.
\<close>

definition example_printed :: "number \<Rightarrow> string" where
  "example_printed x = ''1e+21''"

definition example_failing_sensor :: "string \<Rightarrow> nat \<Rightarrow> sensor" where
  "example_failing_sensor enc counter =
     (example_sensor enc counter)
       \<lparr>renderer := (example_renderer 2 1 [])
          \<lparr>renderToRawPixels := (\<lambda>st sc cam. Inl (Thrown ''context lost''))\<rparr>\<rparr>"

definition example_state :: sceneState where
  "example_state =
     \<lparr>scene_name = ''scene1'', debugNode = Some \<lparr>visible = Bool True\<rparr>, fullScene = None\<rparr>"

definition example_setSize :: "nat \<Rightarrow> nat \<Rightarrow> renderer \<Rightarrow> renderer" where
  "example_setSize w h r = r\<lparr>width := w, height := h\<rparr>"

text \<open>
  The constructor's surroundings: 100 virtual units to the metre, outside a browser; a factory
  that returns a renderer of the resolution it is asked for; an array camera factory that
  lays two views out side by side. The configurations: \<open>cam0\<close> as above, \<open>cam0\<close> with two
  positions, and \<open>cam0\<close> with \<open>width\<close> and \<open>height\<close> given.
\<close>

definition example_constants :: constants where
  "example_constants = \<lparr>metersToVirtualUnit = Num 100, isBrowser = False\<rparr>"

definition example_array_camera :: camera where
  "example_array_camera =
     example_camera\<lparr>isArrayCamera := True, userData_shape := [1, 2],
                    userData_imageShape := (4, 1)\<rparr>"

definition example_library :: library where
  "example_library =
     \<lparr>createArrayCamera = (\<lambda>c. Inr example_array_camera), rendererSetSize = example_setSize\<rparr>"

definition example_opts :: opts where
  "example_opts =
     \<lparr>opt_showDebugNode = Undefined,
      getRenderer = (\<lambda>c. Inr (example_renderer (fst (resolution c)) (snd (resolution c)) []))\<rparr>"

definition example_heap :: store where
  "example_heap = (\<lambda>r. example_config ''rgba'')"


definition example_sized_heap :: store where
  "example_sized_heap =
     (\<lambda>r. (example_config ''rgba'')\<lparr>cfg_width := Some 2, cfg_height := Some 1\<rparr>)"

section \<open>Sanity of the number model\<close>

text \<open>
  The literal \<open>0.1\<close>; \<open>0.1 + 0.2\<close>, which is \<open>0.30000000000000004\<close>; ties, which go to the
  even neighbour (\<open>2 ^ 53 + 1\<close> and \<open>2 ^ 53 + 3\<close> are not binary64 values); and division by
  zero.
\<close>

lemma fl_one_tenth: "fl (1 / 10) = Num (3602879701896397 / 36028797018963968)"
  by code_simp

lemma js_add_tenths:
  "js_add (fl (1 / 10)) (fl (2 / 10)) = Num (1351079888211149 / 4503599627370496)"
  by code_simp

lemma fl_tie_to_even: "fl (2 ^ 53 + 1) = Num (2 ^ 53)" "fl (2 ^ 53 + 3) = Num (2 ^ 53 + 4)"
  by code_simp+

lemma js_div_by_zero:
  "js_div (Num 1) (Num 0) = PosInf" "js_div (Num 0) (Num 0) = NaN"
  by (simp_all add: inf_of_sign_def)

text \<open>
  A natural number below \<open>2 ^ 53\<close> is a binary64 value, so adding 1 to it is exact; at
  \<open>2 ^ 53\<close> adding 1 changes nothing.
\<close>

lemma roundHalfEven_of_int [simp]: "roundHalfEven (of_int z) = z"
  by (simp add: roundHalfEven_def)

lemma ilog2_of_nat:
  assumes "0 < m"
  shows "ilog2 (of_nat m) = bitlen (int m) - 1"
proof -
  have q: "quotient_of (of_nat m :: rat) = (int m, 1)"
    using quotient_of_rat_of_int [of "int m"] by simp
  have b1: "bitlen 1 = 1"
    by (simp add: bitlen_alt_def)
  from assms have pos: "0 < int m"
    by simp
  have ge: "1 \<le> bitlen (int m)"
    using pos by (simp add: bitlen_alt_def)
  have "(2 :: int) ^ nat (bitlen (int m) - 1) \<le> int m"
    using bitlen_bounds [OF pos] by simp
  then have "(of_int ((2 :: int) ^ nat (bitlen (int m) - 1)) :: rat) \<le> of_int (int m)"
    unfolding of_int_le_iff .
  then have "pow2 (bitlen (int m) - 1) \<le> of_nat m"
    using ge by (simp add: pow2_def)
  then show ?thesis
    by (simp add: ilog2_def q b1)
qed

lemma fl_of_nat_small:
  assumes "m < 2 ^ 53"
  shows "fl (of_nat m) = Num (of_nat m)"
proof (cases "m = 0")
  case True
  then show ?thesis by (simp add: fl_def)
next
  case False
  then have pos: "0 < int m" by simp
  define e where "e = bitlen (int m) - 1"
  have ge: "0 \<le> e"
    using pos by (simp add: e_def bitlen_alt_def)
  have lower: "(2 :: int) ^ nat e \<le> int m"
    using bitlen_bounds [OF pos] by (simp add: e_def)
  have "int m < 2 ^ 53"
    using assms by simp
  with lower have "(2 :: int) ^ nat e < 2 ^ 53"
    by (rule le_less_trans)
  then have "nat e < 53"
    by (rule power_less_imp_less_exp [rotated]) simp
  with ge have le: "e \<le> 52"
    by simp
  define d where "d = nat (52 - e)"
  have ulp: "pow2 (e - 52) = 1 / 2 ^ d"
    using le by (auto simp add: pow2_def d_def)
  have "(of_nat m :: rat) / (1 / 2 ^ d) = of_int (int m * 2 ^ d)"
    by simp
  then have r: "roundHalfEven (of_nat m / (1 / 2 ^ d)) = int m * 2 ^ d"
    by (simp only: roundHalfEven_of_int)
  have il: "ilog2 (of_nat m) = e"
    using False by (simp add: ilog2_of_nat e_def)
  have mx: "max e (- 1022) = e"
    using ge by simp
  have "fl (of_nat m) = Num (of_int (int m * 2 ^ d) * (1 / 2 ^ d))"
    using False ge le r
    by (simp add: fl_def Let_def il mx ulp del: of_int_mult of_int_power)
  then show ?thesis
    by simp
qed

lemma fl_2_53: "fl (2 ^ 53) = Num (2 ^ 53)"
  by code_simp

lemma js_add_one:
  assumes "n < 2 ^ 53"
  shows "js_add (number_of n) (Num 1) = number_of (n + 1)"
proof (cases "n + 1 < 2 ^ 53")
  case True
  then have "fl (of_nat n + 1) = Num (of_nat n + 1)"
    using fl_of_nat_small [of "n + 1"] by (simp add: add.commute)
  then show ?thesis
    by (simp add: number_of_def)
next
  case False
  with assms have "n + 1 = 2 ^ 53"
    by simp
  then have "(of_nat (n + 1) :: rat) = of_nat (2 ^ 53)"
    by (simp only:)
  then have sum: "(of_nat n :: rat) + 1 = 2 ^ 53"
    by simp
  have "js_add (number_of n) (Num 1) = fl (of_nat n + 1)"
    by (simp add: number_of_def)
  also have "\<dots> = Num (of_nat n + 1)"
    unfolding sum by (rule fl_2_53)
  finally show ?thesis
    by (simp add: number_of_def)
qed

lemma js_add_one_stuck: "js_add (Num (2 ^ 53)) (Num 1) = Num (2 ^ 53)"
  by code_simp

lemma js_add_one_stuck_numeral:
  "js_add (Num 9007199254740992) (Num 1) = Num 9007199254740992"
  by code_simp

lemma toString_small:
  assumes "n < 2 ^ 53"
  shows "toString printed (number_of n) = string_of_nat n"
proof -
  have "(of_nat n :: rat) < of_nat (2 ^ 53)"
    using assms unfolding of_nat_less_iff .
  then have "(of_nat n :: rat) < 2 ^ 53"
    by simp
  then show ?thesis
    by (simp add: toString_def number_of_def)
qed

section \<open>Frame capture\<close>

lemma capture_invalid:
  assumes "cfg_encoding (config this)
             \<notin> {''rgba'', ''gray'', ''pngbuf'', ''pngfile'', ''pngseq'', ''screen''}"
  shows "capture printed this st =
           (Inr (Null, 4), [ConsoleError (''Invalid encoding: '' @ cfg_encoding (config this))])"
  using assms by (simp add: capture_def Let_def)

text \<open>
  C1. With an encoding that is none of the six the switch knows, \<open>getFrame\<close> returns (it does
  not throw, whatever the renderer would do) the frame of type "color" with null data, the
  requested encoding and the shape \<open>[renderer.width, renderer.height, 4]\<close>; the only call it
  makes is the \<open>console.error\<close> that reports the encoding.
\<close>

theorem getFrame_invalid_encoding:
  assumes "cfg_encoding (config this)
             \<notin> {''rgba'', ''gray'', ''pngbuf'', ''pngfile'', ''pngseq'', ''screen''}"
  shows "result (getFrame printed this sceneState) =
           Inr \<lparr>frame_type = ''color'', data = Null, encoding = cfg_encoding (config this),
                shape = [width (renderer this), height (renderer this), 4]\<rparr>
         \<and> events (getFrame printed this sceneState) =
             [ConsoleError (''Invalid encoding: '' @ cfg_encoding (config this))]"
  by (simp add: getFrame_def getFrame_inner_def capture_invalid [OF assms] Let_def)

theorem getFrame_invalid_encoding_witness:
  "cfg_encoding (config (example_sensor ''bogus'' 7))
     \<notin> {''rgba'', ''gray'', ''pngbuf'', ''pngfile'', ''pngseq'', ''screen''}
   \<and> result (getFrame example_printed (example_sensor ''bogus'' 7) example_state) =
       Inr \<lparr>frame_type = ''color'', data = Null, encoding = ''bogus'', shape = [2, 1, 4]\<rparr>
   \<and> events (getFrame example_printed (example_sensor ''bogus'' 7) example_state) =
       [ConsoleError ''Invalid encoding: bogus'']"
proof -
  have enc: "cfg_encoding (config (example_sensor ''bogus'' 7))
     \<notin> {''rgba'', ''gray'', ''pngbuf'', ''pngfile'', ''pngseq'', ''screen''}"
    by (simp add: example_sensor_def example_config_def)
  show ?thesis
    using enc getFrame_invalid_encoding [OF enc, of example_printed example_state]
    by (simp add: example_sensor_def example_config_def example_renderer_def)
qed

lemma scene_of_set_visible [simp]: "scene_of (set_visible v st) = scene_of st"
  by (simp add: scene_of_def set_visible_def scene.truncate_def split: option.splits)

lemma debugNode_set_visible:
  "debugNode (set_visible v st) = map_option (\<lambda>n. n\<lparr>visible := v\<rparr>) (debugNode st)"
  by (simp add: set_visible_def split: option.splits)

lemma set_visible_None [simp]: "debugNode st = None \<Longrightarrow> set_visible v st = st"
  by (simp add: set_visible_def)

lemma set_visible_restore:
  "set_visible (case debugNode st of Some n \<Rightarrow> visible n | None \<Rightarrow> Undefined) (set_visible v st) = st"
  by (simp add: set_visible_def split: option.splits)

lemma result_getFrame:
  "result (getFrame printed this st) = fst (getFrame_inner printed this (set_visible (Bool (showDebugNode this)) st))"
  by (simp add: getFrame_def Let_def split: prod.splits sum.splits)

lemma events_getFrame:
  "events (getFrame printed this st) = snd (getFrame_inner printed this (set_visible (Bool (showDebugNode this)) st))"
  by (simp add: getFrame_def Let_def split: prod.splits sum.splits)

lemma getFrame_returns:
  assumes "result (getFrame printed this st) = Inr frame"
  shows "this_after (getFrame printed this st)
           = this\<lparr>numFramesRendered := js_add (numFramesRendered this) (Num 1)\<rparr>"
    and "sceneState_after (getFrame printed this st) = st"
  using assms
  by (auto simp add: getFrame_def Let_def set_visible_restore split: prod.splits sum.splits)

lemma getFrame_throws:
  assumes "result (getFrame printed this st) = Inl e"
  shows "this_after (getFrame printed this st) = this"
    and "sceneState_after (getFrame printed this st) = set_visible (Bool (showDebugNode this)) st"
  using assms
  by (auto simp add: getFrame_def Let_def split: prod.splits sum.splits)

lemma capture_events_seen:
  "e \<in> set (snd (capture printed this st)) \<Longrightarrow> seen_by_renderer e = Some st' \<Longrightarrow> st' = st"
  by (auto simp add: capture_def Let_def seen_by_renderer_def split: if_splits)

lemma snd_getFrame_inner: "snd (getFrame_inner printed this st) = snd (capture printed this st)"
  by (simp add: getFrame_inner_def split: prod.splits sum.splits)

lemma capture_pngseq:
  "cfg_encoding (config this) = ''pngseq'' \<Longrightarrow>
   snd (capture printed this st) =
     [RenderToPng st (scene_of st) (camera this)
        (pngseq_name printed (scene_name (scene_of st)) (name this) (numFramesRendered this))]"
  by (simp add: capture_def Let_def)

lemma length_string_of_nat: "0 < k \<Longrightarrow> n < 10 ^ k \<Longrightarrow> length (string_of_nat n) \<le> k"
proof (induction k arbitrary: n)
  case 0
  then show ?case by simp
next
  case (Suc k)
  show ?case
  proof (cases "n < 10")
    case True
    then show ?thesis by (simp add: string_of_nat.simps)
  next
    case False
    then have "0 < k" using Suc.prems by (cases k) auto
    moreover have "n div 10 < 10 ^ k" using Suc.prems by (simp add: less_mult_imp_div_less mult.commute)
    ultimately have "length (string_of_nat (n div 10)) \<le> k" by (rule Suc.IH)
    with False show ?thesis by (subst string_of_nat.simps) simp
  qed
qed

lemma padStart_zero: "padStart s len ''0'' = replicate (len - length s) (CHR ''0'') @ s"
proof -
  have "concat (replicate k ''0'') = replicate k (CHR ''0'')" for k
    by (induction k) simp_all
  then show ?thesis by (simp add: padStart_def)
qed

text \<open>
  C3, as the code has it. Let the frame counter be a natural number \<open>n\<close> below \<open>2 ^ 53\<close>.
  With the encoding "pngseq" the one call \<open>getFrame\<close> makes is \<open>renderToPng\<close> with the file name
  \<open><sceneName>_<sensorName>_<counter>.png\<close>, where the counter is \<open>n\<close>, the value when
  \<open>getFrame\<close> is called, in decimal, with zeros in front up to five characters (exactly five
  for \<open>n\<close> below 100000). Whatever the encoding, a call of \<open>getFrame\<close> that returns a frame
  leaves the counter at \<open>n + 1\<close>, and one that ends in an exception of the renderer leaves it
  at \<open>n\<close>; with an encoding the switch does not know the call always returns.
\<close>

theorem getFrame_pngseq_name_counter:
  assumes "numFramesRendered this = number_of n" and "n < 2 ^ 53"
  shows "(cfg_encoding (config this) = ''pngseq'' \<longrightarrow>
            events (getFrame printed this sceneState) =
              [RenderToPng (set_visible (Bool (showDebugNode this)) sceneState)
                 (scene_of sceneState) (camera this)
                 (scene_name (scene_of sceneState) @ ''_'' @ name this @ ''_''
                    @ replicate (5 - length (string_of_nat n)) (CHR ''0'')
                    @ string_of_nat n @ ''.png'')]
            \<and> (n < 100000 \<longrightarrow> length (padStart (string_of_nat n) 5 ''0'') = 5))
         \<and> (\<forall>frame. result (getFrame printed this sceneState) = Inr frame \<longrightarrow>
               numFramesRendered (this_after (getFrame printed this sceneState))
                 = number_of (n + 1))
         \<and> (\<forall>e. result (getFrame printed this sceneState) = Inl e \<longrightarrow>
               numFramesRendered (this_after (getFrame printed this sceneState)) = number_of n)
         \<and> (cfg_encoding (config this)
               \<notin> {''rgba'', ''gray'', ''pngbuf'', ''pngfile'', ''pngseq'', ''screen''} \<longrightarrow>
             numFramesRendered (this_after (getFrame printed this sceneState))
               = number_of (n + 1))"
proof (intro conjI impI allI)
  assume "cfg_encoding (config this) = ''pngseq''"
  then show "events (getFrame printed this sceneState) =
              [RenderToPng (set_visible (Bool (showDebugNode this)) sceneState)
                 (scene_of sceneState) (camera this)
                 (scene_name (scene_of sceneState) @ ''_'' @ name this @ ''_''
                    @ replicate (5 - length (string_of_nat n)) (CHR ''0'')
                    @ string_of_nat n @ ''.png'')]"
    using assms
    by (simp add: events_getFrame snd_getFrame_inner capture_pngseq pngseq_name_def
        padStart_zero toString_small)
next
  assume "n < 100000"
  then have "length (string_of_nat n) \<le> 5"
    using length_string_of_nat [of 5 n] by simp
  then show "length (padStart (string_of_nat n) 5 ''0'') = 5"
    by (simp add: padStart_zero)
next
  fix frame
  assume "result (getFrame printed this sceneState) = Inr frame"
  then show "numFramesRendered (this_after (getFrame printed this sceneState))
      = number_of (n + 1)"
    using assms by (simp add: getFrame_returns js_add_one)
next
  fix e
  assume "result (getFrame printed this sceneState) = Inl e"
  then show "numFramesRendered (this_after (getFrame printed this sceneState)) = number_of n"
    using assms by (simp add: getFrame_throws)
next
  assume "cfg_encoding (config this)
         \<notin> {''rgba'', ''gray'', ''pngbuf'', ''pngfile'', ''pngseq'', ''screen''}"
  then have "\<exists>frame. result (getFrame printed this sceneState) = Inr frame"
    by (simp add: result_getFrame getFrame_inner_def capture_invalid)
  then show "numFramesRendered (this_after (getFrame printed this sceneState))
      = number_of (n + 1)"
    using assms by (auto simp add: getFrame_returns js_add_one)
qed

lemma string_of_nat_7: "string_of_nat 7 = ''7''"
  by code_simp

lemma four_zeros: "replicate 4 (CHR ''0'') = ''0000''"
  by code_simp

theorem getFrame_pngseq_name_counter_witness:
  "numFramesRendered (example_sensor ''pngseq'' 7) = number_of 7
   \<and> (7 :: nat) < 2 ^ 53
   \<and> events (getFrame example_printed (example_sensor ''pngseq'' 7) example_state) =
       [RenderToPng (set_visible (Bool False) example_state) (scene_of example_state)
          example_camera ''scene1_cam0_00007.png'']
   \<and> result (getFrame example_printed (example_sensor ''pngseq'' 7) example_state) =
       Inr \<lparr>frame_type = ''color'', data = Returned ''scene1_cam0_00007.png'',
            encoding = ''pngseq'', shape = [2, 1, 4]\<rparr>
   \<and> numFramesRendered
        (this_after (getFrame example_printed (example_sensor ''pngseq'' 7) example_state))
       = number_of 8
   \<and> numFramesRendered
        (this_after (getFrame example_printed (example_sensor ''bogus'' 7) example_state))
       = number_of 8
   \<and> result (getFrame example_printed (example_failing_sensor ''gray'' 7) example_state)
       = Inl (Thrown ''context lost'')
   \<and> numFramesRendered
        (this_after (getFrame example_printed (example_failing_sensor ''gray'' 7) example_state))
       = number_of 7"
proof -
  have c: "numFramesRendered (example_sensor enc 7) = number_of 7"
      "numFramesRendered (example_failing_sensor enc 7) = number_of 7" for enc
    by (simp_all add: example_sensor_def example_failing_sensor_def)
  have b: "(7 :: nat) < 2 ^ 53"
    by simp
  have t7: "toString example_printed (number_of 7) = ''7''"
    using toString_small [OF b] by (simp add: string_of_nat_7)
  have r: "result (getFrame example_printed (example_sensor ''pngseq'' 7) example_state) =
       Inr \<lparr>frame_type = ''color'', data = Returned ''scene1_cam0_00007.png'',
            encoding = ''pngseq'', shape = [2, 1, 4]\<rparr>"
    by (simp add: result_getFrame getFrame_inner_def capture_def Let_def example_sensor_def
        example_config_def example_renderer_def example_state_def pngseq_name_def padStart_zero
        t7 string_of_nat_7 four_zeros scene_of_def scene.truncate_def set_visible_def)
  have f: "result (getFrame example_printed (example_failing_sensor ''gray'' 7) example_state)
       = Inl (Thrown ''context lost'')"
    by (simp add: result_getFrame getFrame_inner_def capture_def Let_def example_sensor_def
        example_failing_sensor_def example_config_def)
  have n: "scene_name (scene_of example_state) = ''scene1''"
    by (simp add: scene_of_def example_state_def scene.truncate_def)
  have s: "showDebugNode (example_sensor ''pngseq'' 7) = False"
      "camera (example_sensor ''pngseq'' 7) = example_camera"
      "name (example_sensor ''pngseq'' 7) = ''cam0''"
      "cfg_encoding (config (example_sensor enc 7)) = enc"
      "cfg_encoding (config (example_failing_sensor enc 7)) = enc" for enc
    by (simp_all add: example_sensor_def example_failing_sensor_def example_config_def)
  show ?thesis
    using r f c(1) [of "''pngseq''"] b
      getFrame_pngseq_name_counter [where this = "example_sensor ''pngseq'' 7" and n = 7
        and printed = example_printed and sceneState = example_state]
      getFrame_pngseq_name_counter [where this = "example_sensor ''bogus'' 7" and n = 7
        and printed = example_printed and sceneState = example_state]
      getFrame_pngseq_name_counter [where this = "example_failing_sensor ''gray'' 7" and n = 7
        and printed = example_printed and sceneState = example_state]
    by (simp add: c s string_of_nat_7 four_zeros n)
qed

text \<open>
  C3 as stated fails in two ways. A call in which the renderer throws is a call of \<open>getFrame\<close>
  and leaves the counter where it was, here at 7. And the counter is a binary64 number: at
  \<open>2 ^ 53\<close> the increment adds nothing, so a call that returns leaves it at \<open>2 ^ 53\<close>.
\<close>

theorem getFrame_counter_counterexample:
  "numFramesRendered (example_failing_sensor ''rgba'' 7) = number_of 7
   \<and> result (getFrame example_printed (example_failing_sensor ''rgba'' 7) example_state)
       = Inl (Thrown ''context lost'')
   \<and> numFramesRendered
        (this_after (getFrame example_printed (example_failing_sensor ''rgba'' 7) example_state))
       = number_of 7
   \<and> result (getFrame example_printed
                ((example_sensor ''bogus'' 0)\<lparr>numFramesRendered := Num (2 ^ 53)\<rparr>) example_state)
       = Inr \<lparr>frame_type = ''color'', data = Null, encoding = ''bogus'', shape = [2, 1, 4]\<rparr>
   \<and> numFramesRendered
        (this_after (getFrame example_printed
                       ((example_sensor ''bogus'' 0)\<lparr>numFramesRendered := Num (2 ^ 53)\<rparr>)
                       example_state))
       = Num (2 ^ 53)"
proof -
  let ?failing = "example_failing_sensor ''rgba'' 7"
  let ?full = "(example_sensor ''bogus'' 0)\<lparr>numFramesRendered := Num (2 ^ 53)\<rparr>"
  have c: "numFramesRendered ?failing = number_of 7"
    by (simp add: example_sensor_def example_failing_sensor_def)
  have f: "result (getFrame example_printed ?failing example_state)
       = Inl (Thrown ''context lost'')"
    by (simp add: result_getFrame getFrame_inner_def capture_def Let_def example_sensor_def
        example_failing_sensor_def example_config_def)
  have r: "result (getFrame example_printed ?full example_state)
       = Inr \<lparr>frame_type = ''color'', data = Null, encoding = ''bogus'', shape = [2, 1, 4]\<rparr>"
    by (simp add: result_getFrame getFrame_inner_def capture_def Let_def example_sensor_def
        example_config_def example_renderer_def)
  have "numFramesRendered (this_after (getFrame example_printed ?failing example_state))
      = number_of 7"
    using getFrame_throws(1) [OF f] c by simp
  moreover have "numFramesRendered (this_after (getFrame example_printed ?full example_state))
      = Num (2 ^ 53)"
    using getFrame_returns(1) [OF r] by (simp add: js_add_one_stuck_numeral del: js_add.simps)
  ultimately show ?thesis
    using c f r by simp
qed

lemma scene_of_debugNode_update [simp]: "scene_of (st\<lparr>debugNode := d\<rparr>) = scene_of st"
  by (simp add: scene_of_def scene.truncate_def split: option.splits)

lemma events_getFrame_seen:
  assumes "e \<in> set (events (getFrame printed this sceneState))"
    and "seen_by_renderer e = Some st"
  shows "st = set_visible (Bool (showDebugNode this)) sceneState"
  using assms capture_events_seen [of e printed this
      "set_visible (Bool (showDebugNode this)) sceneState" st]
  by (simp add: events_getFrame snd_getFrame_inner)

text \<open>
  C4. When the scene state carries a debug node, the capture step runs in the scene state in
  which the node's \<open>visible\<close> is the sensor's flag \<open>showDebugNode\<close>: that is the state every
  drawing call of the renderer is made in. When \<open>getFrame\<close> returns a frame, the scene state
  is again what it was before the call, so the node's \<open>visible\<close> has its former value.
\<close>

theorem getFrame_debugNode_visibility:
  assumes "debugNode sceneState = Some n"
  shows "result (getFrame printed this sceneState) =
           fst (getFrame_inner printed this
                  (sceneState\<lparr>debugNode := Some (n\<lparr>visible := Bool (showDebugNode this)\<rparr>)\<rparr>))
         \<and> (\<forall>e \<in> set (events (getFrame printed this sceneState)). \<forall>st.
               seen_by_renderer e = Some st \<longrightarrow>
               map_option visible (debugNode st) = Some (Bool (showDebugNode this)))
         \<and> (\<forall>frame. result (getFrame printed this sceneState) = Inr frame \<longrightarrow>
               sceneState_after (getFrame printed this sceneState) = sceneState
               \<and> map_option visible (debugNode (sceneState_after (getFrame printed this sceneState)))
                   = Some (visible n))"
proof (intro conjI ballI allI impI)
  show "result (getFrame printed this sceneState) =
           fst (getFrame_inner printed this
                  (sceneState\<lparr>debugNode := Some (n\<lparr>visible := Bool (showDebugNode this)\<rparr>)\<rparr>))"
    using assms by (simp add: result_getFrame set_visible_def)
next
  fix e st
  assume "e \<in> set (events (getFrame printed this sceneState))" and "seen_by_renderer e = Some st"
  then have "st = set_visible (Bool (showDebugNode this)) sceneState"
    by (rule events_getFrame_seen)
  then show "map_option visible (debugNode st) = Some (Bool (showDebugNode this))"
    using assms by (simp add: debugNode_set_visible)
next
  fix frame
  assume r: "result (getFrame printed this sceneState) = Inr frame"
  then show "sceneState_after (getFrame printed this sceneState) = sceneState"
    by (rule getFrame_returns)
  with assms show "map_option visible (debugNode (sceneState_after (getFrame printed this sceneState)))
                   = Some (visible n)"
    by simp
qed

theorem getFrame_debugNode_visibility_witness:
  "debugNode example_state = Some \<lparr>visible = Bool True\<rparr>
   \<and> showDebugNode (example_sensor ''rgba'' 0) = False
   \<and> events (getFrame example_printed (example_sensor ''rgba'' 0) example_state) =
       [RenderToRawPixels (example_state\<lparr>debugNode := Some \<lparr>visible = Bool False\<rparr>\<rparr>)
          (scene_of example_state) example_camera]
   \<and> map_option visible
        (debugNode (example_state\<lparr>debugNode := Some \<lparr>visible = Bool False\<rparr>\<rparr>)) = Some (Bool False)
   \<and> result (getFrame example_printed (example_sensor ''rgba'' 0) example_state) =
       Inr \<lparr>frame_type = ''color'', data = ArrayBuffer [255, 255, 255, 255, 0, 28, 152, 9],
            encoding = ''rgba'', shape = [2, 1, 4]\<rparr>
   \<and> sceneState_after (getFrame example_printed (example_sensor ''rgba'' 0) example_state) = example_state
   \<and> map_option visible
        (debugNode (sceneState_after (getFrame example_printed (example_sensor ''rgba'' 0) example_state)))
       = Some (Bool True)"
proof -
  have d: "debugNode example_state = Some \<lparr>visible = Bool True\<rparr>"
    by (simp add: example_state_def)
  have ev: "events (getFrame example_printed (example_sensor ''rgba'' 0) example_state) =
       [RenderToRawPixels (example_state\<lparr>debugNode := Some \<lparr>visible = Bool False\<rparr>\<rparr>)
          (scene_of example_state) example_camera]"
    by (simp add: events_getFrame snd_getFrame_inner capture_def Let_def example_sensor_def
        example_config_def set_visible_def d)
  have r: "result (getFrame example_printed (example_sensor ''rgba'' 0) example_state) =
       Inr \<lparr>frame_type = ''color'', data = ArrayBuffer [255, 255, 255, 255, 0, 28, 152, 9],
            encoding = ''rgba'', shape = [2, 1, 4]\<rparr>"
    by (simp add: result_getFrame getFrame_inner_def capture_def Let_def example_sensor_def
        example_config_def example_renderer_def)
  show ?thesis
    using d ev r getFrame_debugNode_visibility [OF d, of example_printed
        "example_sensor ''rgba'' 0"]
    by (simp add: example_sensor_def)
qed

text \<open>
  C10. Without a debug node \<open>getFrame\<close> leaves the scene state as it found it, and the
  renderer is called in that very state. In every case (also when the renderer throws) the
  sensor after the call has the name, configuration, debug flag, camera and renderer it had
  before: setting the frame counter back gives the sensor of before the call.
\<close>

theorem getFrame_frame_condition:
  "(debugNode sceneState = None \<longrightarrow>
      sceneState_after (getFrame printed this sceneState) = sceneState
      \<and> (\<forall>e \<in> set (events (getFrame printed this sceneState)). \<forall>st.
            seen_by_renderer e = Some st \<longrightarrow> st = sceneState))
   \<and> name (this_after (getFrame printed this sceneState)) = name this
   \<and> config (this_after (getFrame printed this sceneState)) = config this
   \<and> showDebugNode (this_after (getFrame printed this sceneState)) = showDebugNode this
   \<and> camera (this_after (getFrame printed this sceneState)) = camera this
   \<and> renderer (this_after (getFrame printed this sceneState)) = renderer this
   \<and> (this_after (getFrame printed this sceneState))\<lparr>numFramesRendered := numFramesRendered this\<rparr>
       = this"
proof -
  have after: "this_after (getFrame printed this sceneState) = this
      \<or> this_after (getFrame printed this sceneState)
           = this\<lparr>numFramesRendered := js_add (numFramesRendered this) (Num 1)\<rparr>"
    by (cases "result (getFrame printed this sceneState)")
       (simp_all add: getFrame_throws getFrame_returns)
  have state: "sceneState_after (getFrame printed this sceneState) = sceneState"
    if "debugNode sceneState = None"
    using that
    by (cases "result (getFrame printed this sceneState)")
       (simp_all add: getFrame_throws getFrame_returns)
  have seen: "st = sceneState"
    if "debugNode sceneState = None" "e \<in> set (events (getFrame printed this sceneState))"
      "seen_by_renderer e = Some st" for e st
    using events_getFrame_seen [OF that(2) that(3)] that(1) by simp
  from after state seen show ?thesis
    by auto
qed

theorem getFrame_frame_condition_witness:
  "debugNode (example_state\<lparr>debugNode := None\<rparr>) = None
   \<and> sceneState_after (getFrame example_printed (example_sensor ''gray'' 3) (example_state\<lparr>debugNode := None\<rparr>))
       = example_state\<lparr>debugNode := None\<rparr>
   \<and> events (getFrame example_printed (example_sensor ''gray'' 3) (example_state\<lparr>debugNode := None\<rparr>)) =
       [RenderToRawPixels (example_state\<lparr>debugNode := None\<rparr>) (scene_of example_state)
          example_camera]
   \<and> this_after (getFrame example_printed (example_sensor ''gray'' 3) (example_state\<lparr>debugNode := None\<rparr>))
       = example_sensor ''gray'' 4"
proof -
  let ?st = "example_state\<lparr>debugNode := None\<rparr>"
  have d: "debugNode ?st = None"
    by simp
  have ev: "events (getFrame example_printed (example_sensor ''gray'' 3) ?st) =
       [RenderToRawPixels ?st (scene_of example_state) example_camera]"
    by (simp add: events_getFrame snd_getFrame_inner capture_def Let_def example_sensor_def
        example_config_def scene_of_def scene.truncate_def example_state_def)
  have r: "\<exists>frame. result (getFrame example_printed (example_sensor ''gray'' 3) ?st) = Inr frame"
    by (simp add: result_getFrame getFrame_inner_def capture_def Let_def example_sensor_def
        example_config_def example_renderer_def)
  have inc: "js_add (number_of 3) (Num 1) = number_of 4"
    using js_add_one [of 3] by simp
  from r have n: "this_after (getFrame example_printed (example_sensor ''gray'' 3) ?st)
      = example_sensor ''gray'' 4"
    by (auto simp add: getFrame_returns example_sensor_def inc)
  show ?thesis
    using d ev n getFrame_frame_condition [where sceneState = ?st and printed = example_printed
        and this = "example_sensor ''gray'' 3"]
    by simp
qed


lemma capture_gray:
  "cfg_encoding (config this) = ''gray'' \<Longrightarrow>
   fst (capture printed this st) =
     map_sum id (\<lambda>p. (ArrayBuffer (gray (elements p)), 1))
       (renderToRawPixels (renderer this) st (scene_of st) (camera this))"
  by (simp add: capture_def Let_def)

lemma capture_gray_channels:
  assumes "cfg_encoding (config this) = ''gray''"
    and "fst (capture printed this st) = Inr (pixels, numChannels)"
  shows "numChannels = 1"
  using assms(2) unfolding capture_gray [OF assms(1)]
  by (cases "renderToRawPixels (renderer this) st (scene_of st) (camera this)") auto

text \<open>
  C8. \<open>getShape\<close> is \<open>[renderer.width, renderer.height, 4]\<close> and does not depend on the
  configuration; with the encoding "gray" a frame that \<open>getFrame\<close> returns has the shape
  \<open>[renderer.width, renderer.height, 1]\<close>, which differs from what \<open>getShape\<close> gives after the
  call. \<open>getDataRange\<close> is \<open>[0, 255]\<close>, and the metadata report the data type "uint8" when
  the configuration has no \<open>datatype\<close>.
\<close>

theorem getShape_channels:
  "getShape this = [width (renderer this), height (renderer this), 4]
   \<and> getShape (this\<lparr>config := c\<rparr>) = getShape this
   \<and> (cfg_encoding (config this) = ''gray'' \<longrightarrow>
        (\<forall>frame. result (getFrame printed this sceneState) = Inr frame \<longrightarrow>
           shape frame = [width (renderer this), height (renderer this), 1]
           \<and> getShape (this_after (getFrame printed this sceneState))
               = [width (renderer this), height (renderer this), 4]
           \<and> shape frame \<noteq> getShape (this_after (getFrame printed this sceneState))))
   \<and> getDataRange this = [0, 255]
   \<and> (cfg_datatype (config this) = None \<longrightarrow> dataType (getMetadata this) = ''uint8'')"
proof (intro conjI impI allI)
  fix frame
  assume enc: "cfg_encoding (config this) = ''gray''"
    and r: "result (getFrame printed this sceneState) = Inr frame"
  from r have "fst (getFrame_inner printed this (set_visible (Bool (showDebugNode this)) sceneState))
      = Inr frame"
    by (simp add: result_getFrame)
  then show s: "shape frame = [width (renderer this), height (renderer this), 1]"
    using capture_gray_channels [OF enc, of printed
        "set_visible (Bool (showDebugNode this)) sceneState"]
    by (auto simp add: getFrame_inner_def split: prod.splits sum.splits)
  show g: "getShape (this_after (getFrame printed this sceneState))
      = [width (renderer this), height (renderer this), 4]"
    using r by (simp add: getFrame_returns getShape_def)
  from s g show "shape frame \<noteq> getShape (this_after (getFrame printed this sceneState))"
    by simp
qed (simp_all add: getShape_def getDataRange_def getMetadata_def)


lemma gray_example: "gray [255, 255, 255, 255, 0, 28, 152, 9] = [254, 30]"
  by code_simp

theorem getShape_channels_witness:
  "getShape (example_sensor ''gray'' 0) = [2, 1, 4]
   \<and> result (getFrame example_printed (example_sensor ''gray'' 0) example_state) =
       Inr \<lparr>frame_type = ''color'', data = ArrayBuffer [254, 30], encoding = ''gray'',
            shape = [2, 1, 1]\<rparr>
   \<and> getShape (this_after (getFrame example_printed (example_sensor ''gray'' 0) example_state)) = [2, 1, 4]
   \<and> getDataRange (example_sensor ''gray'' 0) = [0, 255]
   \<and> cfg_datatype (config (example_sensor ''gray'' 0)) = None
   \<and> dataType (getMetadata (example_sensor ''gray'' 0)) = ''uint8''"
proof -
  have r: "result (getFrame example_printed (example_sensor ''gray'' 0) example_state) =
       Inr \<lparr>frame_type = ''color'', data = ArrayBuffer [254, 30], encoding = ''gray'',
            shape = [2, 1, 1]\<rparr>"
    by (simp add: result_getFrame getFrame_inner_def capture_def Let_def example_sensor_def
        example_config_def example_renderer_def gray_example)
  have c: "cfg_encoding (config (example_sensor ''gray'' 0)) = ''gray''"
      "cfg_datatype (config (example_sensor ''gray'' 0)) = None"
    by (simp_all add: example_sensor_def example_config_def)
  have w: "width (renderer (example_sensor ''gray'' 0)) = 2"
      "height (renderer (example_sensor ''gray'' 0)) = 1"
    by (simp_all add: example_sensor_def example_renderer_def)
  show ?thesis
    using r c w
      getShape_channels [where this = "example_sensor ''gray'' 0"
        and c = "config (example_sensor ''gray'' 0)" and printed = example_printed
        and sceneState = example_state]
    by simp
qed

section \<open>Resizing\<close>

text \<open>
  C7. \<open>setSize(width, height)\<close> returns no value. It sets the camera's \<open>aspect\<close> to
  \<open>width / height\<close> (nothing else of the camera) and then calls \<open>updateProjectionMatrix\<close> on
  the camera; it calls \<open>resizeCameras(width, height)\<close> exactly when the camera is an array
  camera; it calls the renderer's \<open>setSize\<close> exactly when the renderer's width or height
  differs from the requested one, and only with the requested size, so with the renderer's
  own size the renderer is left as it is. Nothing else of the sensor changes.
\<close>

theorem setSize_effects:
  "(case setSize printed resize this w h of
      (returned, this', calls) \<Rightarrow>
        returned = Undefined
        \<and> camera this' = (camera this)\<lparr>aspect := js_div (number_of w) (number_of h)\<rparr>
        \<and> UpdateProjectionMatrix (camera this') \<in> set calls
        \<and> (ResizeCameras w h \<in> set calls \<longleftrightarrow> isArrayCamera (camera this))
        \<and> (RendererSetSize w h \<in> set calls
             \<longleftrightarrow> width (renderer this) \<noteq> w \<or> height (renderer this) \<noteq> h)
        \<and> (\<forall>w' h'. RendererSetSize w' h' \<in> set calls \<longrightarrow> w' = w \<and> h' = h)
        \<and> renderer this' =
            (if width (renderer this) \<noteq> w \<or> height (renderer this) \<noteq> h
             then resize w h (renderer this) else renderer this)
        \<and> this'\<lparr>camera := camera this, renderer := renderer this\<rparr> = this)"
  by (simp add: setSize_def resize_log_def Let_def)

lemma js_div_2_1: "js_div (number_of 2) (number_of (Suc 0)) = Num 2"
  by code_simp

lemma js_div_4_3: "js_div (number_of 4) (number_of 3) = Num (6004799503160661 / 4503599627370496)"
  by code_simp

theorem setSize_effects_witness:
  "width (renderer (example_sensor ''rgba'' 0)) = 2
   \<and> height (renderer (example_sensor ''rgba'' 0)) = 1
   \<and> setSize example_printed example_setSize (example_sensor ''rgba'' 0) 2 1 =
       (Undefined,
        (example_sensor ''rgba'' 0)\<lparr>camera := example_camera\<lparr>aspect := Num 2\<rparr>\<rparr>,
        [ConsoleLog ''resize sensor cam0 to 2x1'',
         UpdateProjectionMatrix (example_camera\<lparr>aspect := Num 2\<rparr>)])
   \<and> setSize example_printed example_setSize (example_sensor ''rgba'' 0) 4 3 =
       (Undefined,
        (example_sensor ''rgba'' 0)
          \<lparr>camera := example_camera\<lparr>aspect := Num (6004799503160661 / 4503599627370496)\<rparr>,
           renderer := example_setSize 4 3 (renderer (example_sensor ''rgba'' 0))\<rparr>,
        [ConsoleLog ''resize sensor cam0 to 4x3'',
         UpdateProjectionMatrix
           (example_camera\<lparr>aspect := Num (6004799503160661 / 4503599627370496)\<rparr>),
         RendererSetSize 4 3])"
proof -
  have digits: "string_of_nat (Suc 0) = ''1''" "string_of_nat 2 = ''2''"
      "string_of_nat 3 = ''3''" "string_of_nat 4 = ''4''"
    by code_simp+
  have s: "toString example_printed (number_of (Suc 0)) = ''1''"
      "toString example_printed (number_of 2) = ''2''"
      "toString example_printed (number_of 3) = ''3''"
      "toString example_printed (number_of 4) = ''4''"
    by (simp_all add: toString_small digits)
  have a: "\<not> isArrayCamera example_camera"
    by (simp add: example_camera_def new_Camera_def)
  have w: "width (renderer (example_sensor ''rgba'' 0)) = 2"
      "height (renderer (example_sensor ''rgba'' 0)) = 1"
    by (simp_all add: example_sensor_def example_renderer_def)
  have c: "camera (example_sensor ''rgba'' 0) = example_camera"
      "name (example_sensor ''rgba'' 0) = ''cam0''"
    by (simp_all add: example_sensor_def)
  have same: "setSize example_printed example_setSize (example_sensor ''rgba'' 0) 2 1 =
       (Undefined,
        (example_sensor ''rgba'' 0)\<lparr>camera := example_camera\<lparr>aspect := Num 2\<rparr>\<rparr>,
        [ConsoleLog ''resize sensor cam0 to 2x1'',
         UpdateProjectionMatrix (example_camera\<lparr>aspect := Num 2\<rparr>)])"
    using setSize_effects [where resize = example_setSize and printed = example_printed
        and this = "example_sensor ''rgba'' 0"
        and w = 2 and h = 1]
    by (simp add: setSize_def resize_log_def Let_def s a w c js_div_2_1)
  have other: "setSize example_printed example_setSize (example_sensor ''rgba'' 0) 4 3 =
       (Undefined,
        (example_sensor ''rgba'' 0)
          \<lparr>camera := example_camera\<lparr>aspect := Num (6004799503160661 / 4503599627370496)\<rparr>,
           renderer := example_setSize 4 3 (renderer (example_sensor ''rgba'' 0))\<rparr>,
        [ConsoleLog ''resize sensor cam0 to 4x3'',
         UpdateProjectionMatrix
           (example_camera\<lparr>aspect := Num (6004799503160661 / 4503599627370496)\<rparr>),
         RendererSetSize 4 3])"
    by (simp add: setSize_def resize_log_def Let_def s a w c js_div_4_3)
  from w same other show ?thesis
    by simp
qed

section \<open>Construction\<close>

lemma make_cameraConfig_eq:
  "make_cameraConfig Constants heap = heap(Working := cameraConfig_of Constants (heap Caller))"
  by (auto simp add: make_cameraConfig_def cameraConfig_of_def assign_def defaults_def Let_def
      toNumber_def fun_eq_iff split: option.splits)


lemma make_camera_array_throws:
  assumes "1 < length (position (heap Working))"
    and "createArrayCamera lib (heap Working) = Inl e"
  shows "make_camera Constants lib heap = (Inl e, heap, [CreateArrayCamera (heap Working)])"
  using assms by (simp add: make_camera_def)

lemma make_camera_single:
  assumes "\<not> 1 < length (position (heap Working))"
    and "make_camera Constants lib heap = (Inr (cam, r), heap', calls)"
  shows "r = Caller" and "heap' = heap"
    and "cam_fov cam = toNumber (fov (heap Working))"
    and "cam_near cam = toNumber (near (heap Working))"
    and "cam_far cam = toNumber (far (heap Working))"
    and "aspect cam = js_div (dimension (cfg_width (heap Working)))
                             (dimension (cfg_height (heap Working)))"
    and "\<not> isArrayCamera cam"
    and "\<forall>cc. CreateArrayCamera cc \<notin> set calls"
    and "\<forall>m. ConsoleLog m \<notin> set calls"
    and "\<forall>w h. RendererSetSize w h \<notin> set calls"
    and "\<forall>rc. GetRenderer rc \<notin> set calls"
  using assms
  by (auto simp add: make_camera_def new_Camera_def Let_def split: list.splits option.splits)

lemma make_camera_heap:
  assumes "make_camera Constants lib heap = (res, heap', calls)"
  shows "heap' Caller = heap Caller" and "heap' Working = heap Working"
  using assms
  by (auto simp add: make_camera_def assign_def Let_def
      split: if_splits sum.splits list.splits option.splits)

lemma make_camera_calls:
  assumes "make_camera Constants lib heap = (res, heap', calls)"
  shows "\<forall>m. ConsoleLog m \<notin> set calls" and "\<forall>w h. RendererSetSize w h \<notin> set calls"
    and "\<forall>rc. GetRenderer rc \<notin> set calls"
    and "\<forall>cc. CreateArrayCamera cc \<in> set calls \<longrightarrow> cc = heap Working"
  using assms
  by (auto simp add: make_camera_def assign_def Let_def
      split: if_splits sum.splits list.splits option.splits)

lemma make_camera_ref:
  assumes "make_camera Constants lib heap = (Inr (cam, r), heap', calls)"
  shows "cfg_width (heap' r) = cfg_width (heap Caller)"
    and "cfg_height (heap' r) = cfg_height (heap Caller)"
  using assms
  by (auto simp add: make_camera_def assign_def Let_def
      split: if_splits sum.splits list.splits option.splits)


lemma setSize_same_size:
  "setSize printed rs this (width (renderer this)) (height (renderer this)) =
     (Undefined,
      this\<lparr>camera := (camera this)\<lparr>aspect :=
              js_div (number_of (width (renderer this))) (number_of (height (renderer this)))\<rparr>\<rparr>,
      [resize_log printed (name this) (width (renderer this)) (height (renderer this)),
       UpdateProjectionMatrix ((camera this)\<lparr>aspect :=
              js_div (number_of (width (renderer this))) (number_of (height (renderer this)))\<rparr>)]
      @ (if isArrayCamera (camera this)
         then [ResizeCameras (width (renderer this)) (height (renderer this))] else []))"
  by (simp add: setSize_def Let_def resize_log_def)

lemma CameraSensor_returns:
  assumes "CameraSensor printed Constants lib heap opts = (Inr this, heap', calls)"
  shows "\<exists>cam rendererConfig calls0 r.
           make_camera Constants lib (make_cameraConfig Constants heap)
             = (Inr (cam, rendererConfig), heap', calls0)
           \<and> getRenderer opts (heap' rendererConfig) = Inr r
           \<and> renderer this = r
           \<and> name this = cfg_name (heap Caller)
           \<and> config this = heap Caller
           \<and> numFramesRendered this = Num 0
           \<and> showDebugNode this = truthy (opt_showDebugNode opts)
           \<and> camera this =
               (let cam1 = cam\<lparr>cam_name := cfg_name (heap' Caller),
                               isEquirectangular := cfg_isEquirectangular (heap' Working)\<rparr>
                in if needs_resize r (heap' rendererConfig)
                   then cam1\<lparr>aspect := js_div (number_of (width r)) (number_of (height r))\<rparr>
                   else cam1)
           \<and> calls = calls0 @ [GetRenderer (heap' rendererConfig)]
                 @ (if needs_resize r (heap' rendererConfig)
                    then [resize_log printed (cfg_name (heap Caller)) (width r) (height r),
                          UpdateProjectionMatrix
                            (cam\<lparr>cam_name := cfg_name (heap' Caller),
                                 isEquirectangular := cfg_isEquirectangular (heap' Working),
                                 aspect := js_div (number_of (width r)) (number_of (height r))\<rparr>)]
                         @ (if isArrayCamera cam then [ResizeCameras (width r) (height r)]
                            else [])
                    else [])"
proof -
  obtain res heap2 calls0 where
    mc: "make_camera Constants lib (make_cameraConfig Constants heap) = (res, heap2, calls0)"
    by (cases "make_camera Constants lib (make_cameraConfig Constants heap)") auto
  show ?thesis
  proof (cases res)
    case (Inl e)
    with assms mc show ?thesis
      by (simp add: CameraSensor_def Let_def)
  next
    case (Inr pair)
    then obtain cam rendererConfig where res: "res = Inr (cam, rendererConfig)"
      by (cases pair) auto
    show ?thesis
    proof (cases "getRenderer opts (heap2 rendererConfig)")
      case (Inl e)
      with assms mc res show ?thesis
        by (simp add: CameraSensor_def Let_def)
    next
      case (Inr r)
      define this0 where "this0 =
        \<lparr>name = fst (Sensor (heap Caller)), config = snd (Sensor (heap Caller)),
         showDebugNode = truthy (opt_showDebugNode opts),
         camera = cam\<lparr>cam_name := cfg_name (heap2 Caller),
                       isEquirectangular := cfg_isEquirectangular (heap2 Working)\<rparr>,
         renderer = r, numFramesRendered = NaN\<rparr>"
      have wh: "width (renderer this0) = width r" "height (renderer this0) = height r"
        by (simp_all add: this0_def)
      have ss: "setSize printed (rendererSetSize lib) this0 (width r) (height r) =
          (Undefined,
           this0\<lparr>camera := (camera this0)\<lparr>aspect :=
                   js_div (number_of (width r)) (number_of (height r))\<rparr>\<rparr>,
           [resize_log printed (name this0) (width r) (height r),
            UpdateProjectionMatrix ((camera this0)\<lparr>aspect :=
                   js_div (number_of (width r)) (number_of (height r))\<rparr>)]
           @ (if isArrayCamera (camera this0) then [ResizeCameras (width r) (height r)] else []))"
        using setSize_same_size [of printed "rendererSetSize lib" this0] by (simp only: wh)
      from assms mc res Inr have h: "heap' = heap2"
        by (simp add: CameraSensor_def Let_def split: if_splits prod.splits)
      show ?thesis
      proof (cases "needs_resize r (heap2 rendererConfig)")
        case True
        with assms mc res Inr ss show ?thesis
          unfolding h
          by (auto simp add: CameraSensor_def Let_def this0_def Sensor_def)
      next
        case False
        with assms mc res Inr show ?thesis
          unfolding h
          by (auto simp add: CameraSensor_def Let_def Sensor_def)
      qed
    qed
  qed
qed

lemma CameraSensor_heap:
  assumes "CameraSensor printed Constants lib heap opts = (res, heap', calls)"
  shows "heap' Caller = heap Caller"
    and "heap' Working = cameraConfig_of Constants (heap Caller)"
proof -
  obtain res0 heap2 calls0 where
    mc: "make_camera Constants lib (make_cameraConfig Constants heap) = (res0, heap2, calls0)"
    by (cases "make_camera Constants lib (make_cameraConfig Constants heap)") auto
  from assms mc have "heap' = heap2"
    by (auto simp add: CameraSensor_def Let_def split: sum.splits prod.splits if_splits)
  with make_camera_heap [OF mc]
  show "heap' Caller = heap Caller" and "heap' Working = cameraConfig_of Constants (heap Caller)"
    by (simp_all add: make_cameraConfig_eq)
qed






lemma example_CameraSensor_returns:
  "\<exists>this. fst (CameraSensor example_printed example_constants example_library example_heap example_opts)
           = Inr this"
  by (simp add: CameraSensor_def make_cameraConfig_eq make_camera_def Let_def example_heap_def
      example_config_def example_opts_def cameraConfig_of_def split: prod.splits)










lemma example_sized_CameraSensor_returns:
  "\<exists>this. fst (CameraSensor example_printed example_constants example_library example_sized_heap example_opts)
           = Inr this"
  by (simp add: CameraSensor_def make_cameraConfig_eq make_camera_def Let_def
      example_sized_heap_def example_config_def example_opts_def cameraConfig_of_def
      split: prod.splits)

lemma resize_log_ConsoleLog: "resize_log printed n w h \<noteq> e" if "\<forall>m. e \<noteq> ConsoleLog m"
  using that by (auto simp add: resize_log_def)

text \<open>
  C5, as the code has it. When the constructor returns, the sensor's renderer is the one the
  factory returned, untouched (the renderer's own \<open>setSize\<close> is never called), so
  \<open>getShape()\<close> is \<open>[r.width, r.height, 4]\<close> for the renderer's reported size. The sensor's
  \<open>setSize\<close> is called at construction (its console line is written, and the camera's
  \<open>aspect\<close> becomes \<open>r.width / r.height\<close>) exactly when the renderer's width or height differs
  from the property \<open>width\<close> or \<open>height\<close> of the configuration handed to the factory, which are
  the caller's \<open>config.width\<close> and \<open>config.height\<close>; an absent property differs from every
  size. The resolution is not what the renderer's size is compared with.
\<close>

theorem CameraSensor_resize:
  assumes "CameraSensor printed Constants lib heap opts = (Inr this, heap', calls)"
  shows "\<exists>rendererConfig r.
           GetRenderer rendererConfig \<in> set calls
           \<and> getRenderer opts rendererConfig = Inr r
           \<and> cfg_width rendererConfig = cfg_width (heap Caller)
           \<and> cfg_height rendererConfig = cfg_height (heap Caller)
           \<and> renderer this = r
           \<and> getShape this = [width r, height r, 4]
           \<and> (resize_log printed (name this) (width r) (height r) \<in> set calls
                \<longleftrightarrow> Some (width r) \<noteq> cfg_width (heap Caller)
                    \<or> Some (height r) \<noteq> cfg_height (heap Caller))
           \<and> (\<forall>m. ConsoleLog m \<in> set calls \<longrightarrow>
                 ConsoleLog m = resize_log printed (name this) (width r) (height r))
           \<and> (\<forall>w h. RendererSetSize w h \<notin> set calls)
           \<and> (Some (width r) \<noteq> cfg_width (heap Caller)
                 \<or> Some (height r) \<noteq> cfg_height (heap Caller) \<longrightarrow>
               aspect (camera this) = js_div (number_of (width r)) (number_of (height r)))"
proof -
  from CameraSensor_returns [OF assms]
  obtain cam rendererConfig calls0 r where
    mc: "make_camera Constants lib (make_cameraConfig Constants heap)
           = (Inr (cam, rendererConfig), heap', calls0)"
    and r: "getRenderer opts (heap' rendererConfig) = Inr r" "renderer this = r"
    and n: "name this = cfg_name (heap Caller)"
    and cam: "camera this =
               (let cam1 = cam\<lparr>cam_name := cfg_name (heap' Caller),
                               isEquirectangular := cfg_isEquirectangular (heap' Working)\<rparr>
                in if needs_resize r (heap' rendererConfig)
                   then cam1\<lparr>aspect := js_div (number_of (width r)) (number_of (height r))\<rparr>
                   else cam1)"
    and calls: "calls = calls0 @ [GetRenderer (heap' rendererConfig)]
                 @ (if needs_resize r (heap' rendererConfig)
                    then [resize_log printed (cfg_name (heap Caller)) (width r) (height r),
                          UpdateProjectionMatrix
                            (cam\<lparr>cam_name := cfg_name (heap' Caller),
                                 isEquirectangular := cfg_isEquirectangular (heap' Working),
                                 aspect := js_div (number_of (width r)) (number_of (height r))\<rparr>)]
                         @ (if isArrayCamera cam then [ResizeCameras (width r) (height r)]
                            else [])
                    else [])"
    by blast
  have wh: "cfg_width (heap' rendererConfig) = cfg_width (heap Caller)"
      "cfg_height (heap' rendererConfig) = cfg_height (heap Caller)"
    using make_camera_ref [OF mc] by (simp_all add: make_cameraConfig_eq)
  then have needs: "needs_resize r (heap' rendererConfig)
      \<longleftrightarrow> Some (width r) \<noteq> cfg_width (heap Caller) \<or> Some (height r) \<noteq> cfg_height (heap Caller)"
    by (simp add: needs_resize_def)
  note quiet = make_camera_calls(1,2) [OF mc]
  have log: "resize_log printed (name this) (width r) (height r) \<notin> set calls0"
    using quiet(1) by (auto simp add: resize_log_def)
  show ?thesis
  proof (intro exI [of _ "heap' rendererConfig"] exI [of _ r] conjI)
    show "GetRenderer (heap' rendererConfig) \<in> set calls"
      by (simp add: calls)
    show "getRenderer opts (heap' rendererConfig) = Inr r"
      by (rule r)
    show "renderer this = r"
      by (rule r)
    show "getShape this = [width r, height r, 4]"
      by (simp add: getShape_def r)
    show "resize_log printed (name this) (width r) (height r) \<in> set calls
                \<longleftrightarrow> Some (width r) \<noteq> cfg_width (heap Caller)
                    \<or> Some (height r) \<noteq> cfg_height (heap Caller)"
      unfolding needs [symmetric] using log
      by (auto simp add: calls n resize_log_def)
    show "\<forall>m. ConsoleLog m \<in> set calls \<longrightarrow>
                 ConsoleLog m = resize_log printed (name this) (width r) (height r)"
      using quiet(1) by (auto simp add: calls n resize_log_def split: if_splits)
    show "\<forall>w h. RendererSetSize w h \<notin> set calls"
      using quiet(2) by (auto simp add: calls resize_log_def split: if_splits)
    show "Some (width r) \<noteq> cfg_width (heap Caller)
                 \<or> Some (height r) \<noteq> cfg_height (heap Caller) \<longrightarrow>
               aspect (camera this) = js_div (number_of (width r)) (number_of (height r))"
      unfolding needs [symmetric] by (simp add: cam Let_def)
  qed (rule wh)+
qed

lemma example_resize_log: "resize_log example_printed ''cam0'' 2 (Suc 0) = ConsoleLog ''resize sensor cam0 to 2x1''"
proof -
  have "string_of_nat 2 = ''2''" "string_of_nat (Suc 0) = ''1''"
    by code_simp+
  then show ?thesis
    by (simp add: resize_log_def toString_small)
qed

lemma example_single_renderer:
  assumes "CameraSensor example_printed example_constants example_library heap example_opts
             = (Inr this, heap', calls)"
    and "\<not> 1 < length (position (heap Caller))"
    and "resolution (heap Caller) = (2, 1)"
  shows "renderer this = example_renderer 2 1 []"
proof -
  from CameraSensor_returns [OF assms(1)]
  obtain cam rendererConfig calls0 r where
    mc: "make_camera example_constants example_library (make_cameraConfig example_constants heap)
           = (Inr (cam, rendererConfig), heap', calls0)"
    and r: "getRenderer example_opts (heap' rendererConfig) = Inr r" "renderer this = r"
    by blast
  have single:
    "\<not> 1 < length (position (make_cameraConfig example_constants heap Working))"
    using assms(2) by (simp add: make_cameraConfig_eq cameraConfig_of_def)
  have "rendererConfig = Caller"
    using single mc by (rule make_camera_single)
  moreover have "heap' Caller = heap Caller"
    using assms(1) by (rule CameraSensor_heap)
  ultimately show ?thesis
    using r assms(3) by (simp add: example_opts_def)
qed

theorem CameraSensor_resize_witness:
  "cfg_width (example_heap Caller) = None
   \<and> map_sum id getShape
        (fst (CameraSensor example_printed example_constants example_library example_heap example_opts))
       = Inr [2, 1, 4]
   \<and> ConsoleLog ''resize sensor cam0 to 2x1''
       \<in> set (snd (snd (CameraSensor example_printed example_constants example_library example_heap
                          example_opts)))
   \<and> cfg_width (example_sized_heap Caller) = Some 2
   \<and> cfg_height (example_sized_heap Caller) = Some 1
   \<and> map_sum id getShape
        (fst (CameraSensor example_printed example_constants example_library example_sized_heap example_opts))
       = Inr [2, 1, 4]
   \<and> (\<forall>m. ConsoleLog m
             \<notin> set (snd (snd (CameraSensor example_printed example_constants example_library
                                  example_sized_heap example_opts))))"
proof -
  let ?X = "CameraSensor example_printed example_constants example_library example_heap example_opts"
  let ?Y = "CameraSensor example_printed example_constants example_library example_sized_heap example_opts"
  obtain this1 where t1: "fst ?X = Inr this1"
    using example_CameraSensor_returns by blast
  then have x: "?X = (Inr this1, fst (snd ?X), snd (snd ?X))"
    by (metis prod.collapse)
  obtain this2 where t2: "fst ?Y = Inr this2"
    using example_sized_CameraSensor_returns by blast
  then have y: "?Y = (Inr this2, fst (snd ?Y), snd (snd ?Y))"
    by (metis prod.collapse)
  have c1: "resolution (example_heap Caller) = (2, 1)"
      "\<not> 1 < length (position (example_heap Caller))"
      "cfg_width (example_heap Caller) = None"
    by (simp_all add: example_heap_def example_config_def)
  have c2: "resolution (example_sized_heap Caller) = (2, 1)"
      "\<not> 1 < length (position (example_sized_heap Caller))"
      "cfg_width (example_sized_heap Caller) = Some 2"
      "cfg_height (example_sized_heap Caller) = Some 1"
    by (simp_all add: example_sized_heap_def example_config_def)
  have r1: "renderer this1 = example_renderer 2 1 []"
    using x c1(2) c1(1) by (rule example_single_renderer)
  have r2: "renderer this2 = example_renderer 2 1 []"
    using y c2(2) c2(1) by (rule example_single_renderer)
  have n1: "name this1 = ''cam0''"
    using CameraSensor_returns [OF x] by (auto simp add: example_heap_def example_config_def)
  have wh: "width (example_renderer 2 (Suc 0) []) = 2"
      "height (example_renderer 2 (Suc 0) []) = Suc 0"
    by (simp_all add: example_renderer_def)
  have first: "map_sum id getShape (fst ?X) = Inr [2, 1, 4]
      \<and> ConsoleLog ''resize sensor cam0 to 2x1'' \<in> set (snd (snd ?X))"
    using CameraSensor_resize [OF x] t1 r1 n1 c1(3)
    by (auto simp add: wh example_resize_log)
  have second: "map_sum id getShape (fst ?Y) = Inr [2, 1, 4]
      \<and> (\<forall>m. ConsoleLog m \<notin> set (snd (snd ?Y)))"
    using CameraSensor_resize [OF y] t2 r2 c2(3,4)
    by (auto simp add: wh)
  from first second c1(3) c2(3,4) show ?thesis
    by simp
qed

text \<open>
  C5 as stated fails: the configuration \<open>cam0\<close> asks for the resolution 2 by 1 and has no
  \<open>width\<close> or \<open>height\<close> property; the factory returns a renderer that is 2 by 1; the
  constructor still resizes the sensor.
\<close>

theorem CameraSensor_resize_counterexample:
  "resolution (example_heap Caller) = (2, 1)
   \<and> cfg_width (example_heap Caller) = None
   \<and> map_sum id getShape
        (fst (CameraSensor example_printed example_constants example_library example_heap example_opts))
       = Inr [2, 1, 4]
   \<and> ConsoleLog ''resize sensor cam0 to 2x1''
       \<in> set (snd (snd (CameraSensor example_printed example_constants example_library example_heap
                          example_opts)))"
proof -
  let ?X = "CameraSensor example_printed example_constants example_library example_heap example_opts"
  obtain this where t: "fst ?X = Inr this"
    using example_CameraSensor_returns by blast
  then have eq: "?X = (Inr this, fst (snd ?X), snd (snd ?X))"
    by (metis prod.collapse)
  have c: "resolution (example_heap Caller) = (2, 1)"
      "\<not> 1 < length (position (example_heap Caller))"
      "cfg_width (example_heap Caller) = None" "cfg_name (example_heap Caller) = ''cam0''"
    by (simp_all add: example_heap_def example_config_def)
  have r: "renderer this = example_renderer 2 1 []"
    using eq c(2) c(1) by (rule example_single_renderer)
  from CameraSensor_returns [OF eq]
  obtain cam rendererConfig calls0 where
    mc: "make_camera example_constants example_library
           (make_cameraConfig example_constants example_heap)
           = (Inr (cam, rendererConfig), fst (snd ?X), calls0)"
    and calls: "snd (snd ?X) = calls0 @ [GetRenderer (fst (snd ?X) rendererConfig)]
                 @ (if needs_resize (renderer this) (fst (snd ?X) rendererConfig)
                    then [resize_log example_printed (cfg_name (example_heap Caller)) (width (renderer this))
                            (height (renderer this)),
                          UpdateProjectionMatrix
                            (cam\<lparr>cam_name := cfg_name (fst (snd ?X) Caller),
                                 isEquirectangular := cfg_isEquirectangular (fst (snd ?X) Working),
                                 aspect := js_div (number_of (width (renderer this)))
                                             (number_of (height (renderer this)))\<rparr>)]
                         @ (if isArrayCamera cam
                            then [ResizeCameras (width (renderer this)) (height (renderer this))]
                            else [])
                    else [])"
    by blast
  have "cfg_width (fst (snd ?X) rendererConfig) = None"
    using make_camera_ref(1) [OF mc] c(3) by (simp add: make_cameraConfig_eq)
  then have "needs_resize (renderer this) (fst (snd ?X) rendererConfig)"
    by (simp add: needs_resize_def)
  with calls have "resize_log example_printed ''cam0'' 2 (Suc 0) \<in> set (snd (snd ?X))"
    by (simp add: r c(4) example_renderer_def)
  then show ?thesis
    using t r c(1,3) by (simp add: example_resize_log example_renderer_def getShape_def)
qed

section \<open>The grayscale conversion\<close>

lemma shl2_small:
  assumes "i < 2 ^ 29"
  shows "shl2 i = 4 * int i"
proof -
  have "push_bit 2 (word_of_nat i :: 32 word) = word_of_nat (4 * i)"
    by (simp add: push_bit_eq_mult)
  moreover have "int (4 * i) < 2 ^ 31"
    using assms by simp
  ultimately show ?thesis
    unfolding shl2_def
    by (simp add: signed_of_nat signed_take_bit_int_eq_self del: of_nat_mult)
qed

lemma shl2_overflow: "shl2 (2 ^ 29) = - (2 ^ 31)"
  by (simp add: shl2_def)

lemma length_gray_loop: "length (fst (gray_loop N i p acc)) = length p"
proof (induction N i p acc rule: gray_loop.induct)
  case (1 N i p acc)
  show ?case
  proof (cases "of_nat i < N")
    case True
    with "1.IH" [OF True refl refl] show ?thesis
      by (subst gray_loop.simps) (simp add: Let_def)
  next
    case False
    then show ?thesis
      by (subst gray_loop.simps) simp
  qed
qed

lemma gray_loop_written:
  "j < i \<Longrightarrow> fst (gray_loop N i p acc) ! j = p ! j"
proof (induction N i p acc rule: gray_loop.induct)
  case (1 N i p acc)
  show ?case
  proof (cases "of_nat i < N")
    case True
    from "1.prems" have "j < i + 1" by simp
    with "1.IH" [OF True refl refl] "1.prems" show ?thesis
      by (subst gray_loop.simps) (simp add: True Let_def)
  next
    case False
    then show ?thesis
      by (subst gray_loop.simps) simp
  qed
qed

lemma gray_loop_unfold:
  "of_nat i < N \<Longrightarrow>
   gray_loop N i p acc =
     gray_loop N (i + 1) (p[i := stored p i])
       (acc @ [Read (shl2 i), Read (shl2 i + 1), Read (shl2 i + 2), Write i])"
  by (subst gray_loop.simps) (simp add: Let_def stored_def)

lemma gray_loop_done: "\<not> of_nat i < N \<Longrightarrow> gray_loop N i p acc = (p, acc)"
  by (subst gray_loop.simps) simp

lemma stored_small:
  assumes "i < 2 ^ 29" and "4 * i + 2 < length q"
  shows "stored q i =
     toUint8 (luma (number_of (unat (q ! (4 * i)))) (number_of (unat (q ! (4 * i + 1))))
                   (number_of (unat (q ! (4 * i + 2)))))"
proof -
  have "nat (4 * int i) = 4 * i" "nat (4 * int i + 1) = 4 * i + 1" "nat (4 * int i + 2) = 4 * i + 2"
    by simp_all
  then show ?thesis
    using assms by (simp add: stored_def shl2_small readByte_def)
qed

lemma gray_loop_values:
  assumes "N = of_nat n" and "length p = 4 * n" and "n \<le> 2 ^ 29"
    and "length q = length p"
    and "\<forall>k. i \<le> k \<and> k < length p \<longrightarrow> q ! k = p ! k"
    and "i \<le> j" and "j < n"
  shows "fst (gray_loop N i q acc) ! j = pixel_luma p j"
  using assms
proof (induction N i q acc rule: gray_loop.induct)
  case (1 N i q acc)
  from "1.prems" have run: "of_nat i < N"
    by simp
  let ?q = "q[i := stored q i]"
  have step: "gray_loop N i q acc =
     gray_loop N (i + 1) ?q (acc @ [Read (shl2 i), Read (shl2 i + 1), Read (shl2 i + 2), Write i])"
    using run by (rule gray_loop_unfold)
  show ?case
  proof (cases "i = j")
    case True
    have small: "j < 2 ^ 29" "4 * j + 2 < length q"
      using "1.prems" by simp_all
    have "fst (gray_loop N i q acc) ! j = ?q ! j"
      unfolding step using True by (simp add: gray_loop_written)
    also have "\<dots> = stored q j"
      using True small by simp
    also have "\<dots> = pixel_luma p j"
      using "1.prems" True small by (simp add: stored_small pixel_luma_def)
    finally show ?thesis .
  next
    case False
    with "1.prems" have "i + 1 \<le> j"
      by simp
    moreover have "\<forall>k. i + 1 \<le> k \<and> k < length p \<longrightarrow> ?q ! k = p ! k"
      using "1.prems" by simp
    moreover have "length ?q = length p"
      using "1.prems" by simp
    ultimately have "fst (gray_loop N (i + 1) ?q
        (acc @ [Read (shl2 i), Read (shl2 i + 1), Read (shl2 i + 2), Write i])) ! j
        = pixel_luma p j"
      using "1.prems" "1.IH" [OF run refl refl] by (simp add: stored_def)
    then show ?thesis
      unfolding step .
  qed
qed

lemma reads_unwritten_append:
  "reads_unwritten W (xs @ ys) \<longleftrightarrow>
     reads_unwritten W xs \<and> reads_unwritten (W \<union> {i. Write i \<in> set xs}) ys"
proof (induction xs arbitrary: W)
  case Nil
  then show ?case by simp
next
  case (Cons a xs)
  show ?case
  proof (cases a)
    case (Read b)
    then show ?thesis
      using Cons.IH [of W] by auto
  next
    case (Write i)
    have "insert i W \<union> {k. Write k \<in> set xs} = W \<union> {k. Write k \<in> set (a # xs)}"
      using Write by auto
    then show ?thesis
      using Cons.IH [of "insert i W"] Write by simp
  qed
qed

lemma reads_unwritten_nth:
  assumes "reads_unwritten W tr"
  shows "(\<forall>l r. l < length tr \<and> tr ! l = Read r \<longrightarrow> r \<notin> int ` W)
         \<and> (\<forall>k l j. k < l \<and> l < length tr \<and> tr ! k = Write j \<longrightarrow> tr ! l \<noteq> Read (int j))"
  using assms
proof (induction tr arbitrary: W)
  case Nil
  then show ?case by simp
next
  case (Cons a tr)
  show ?case
  proof (cases a)
    case (Read b)
    with Cons.prems have b: "b \<notin> int ` W" and rest: "reads_unwritten W tr"
      by simp_all
    note IH = Cons.IH [OF rest]
    show ?thesis
    proof (intro conjI allI impI)
      fix l r
      assume "l < length (a # tr) \<and> (a # tr) ! l = Read r"
      then show "r \<notin> int ` W"
        using b IH Read by (cases l) auto
    next
      fix k l j
      assume "k < l \<and> l < length (a # tr) \<and> (a # tr) ! k = Write j"
      then show "(a # tr) ! l \<noteq> Read (int j)"
        using IH Read by (cases k; cases l) auto
    qed
  next
    case (Write i)
    with Cons.prems have rest: "reads_unwritten (insert i W) tr"
      by simp
    note IH = Cons.IH [OF rest]
    show ?thesis
    proof (intro conjI allI impI)
      fix l r
      assume "l < length (a # tr) \<and> (a # tr) ! l = Read r"
      then show "r \<notin> int ` W"
        using IH Write by (cases l) auto
    next
      fix k l j
      assume "k < l \<and> l < length (a # tr) \<and> (a # tr) ! k = Write j"
      then show "(a # tr) ! l \<noteq> Read (int j)"
        using IH Write by (cases k; cases l) auto
    qed
  qed
qed

lemma gray_loop_accesses:
  assumes "N \<le> 2 ^ 29" and "reads_unwritten {} acc" and "\<forall>w. Write w \<in> set acc \<longrightarrow> w < i"
  shows "reads_unwritten {} (snd (gray_loop N i q acc))"
  using assms
proof (induction N i q acc rule: gray_loop.induct)
  case (1 N i q acc)
  show ?case
  proof (cases "of_nat i < N")
    case False
    then show ?thesis
      using "1.prems" by (simp add: gray_loop_done)
  next
    case True
    let ?new = "[Read (shl2 i), Read (shl2 i + 1), Read (shl2 i + 2), Write i]"
    from True "1.prems"(1) have "(of_nat i :: rat) < 2 ^ 29"
      by simp
    then have "(of_nat i :: rat) < of_nat (2 ^ 29)"
      by simp
    then have small: "i < 2 ^ 29"
      unfolding of_nat_less_iff .
    have "reads_unwritten ({} \<union> {w. Write w \<in> set acc}) ?new"
      using "1.prems"(3) by (auto simp add: shl2_small [OF small])
    with "1.prems"(2) have "reads_unwritten {} (acc @ ?new)"
      by (simp add: reads_unwritten_append)
    moreover have "\<forall>w. Write w \<in> set (acc @ ?new) \<longrightarrow> w < i + 1"
      using "1.prems"(3) by (auto simp add: less_Suc_eq)
    ultimately have "reads_unwritten {} (snd (gray_loop N (i + 1) (q[i := stored q i]) (acc @ ?new)))"
      using "1.IH" [OF True refl refl] "1.prems"(1) by (simp add: stored_def)
    then show ?thesis
      by (simp add: gray_loop_unfold [OF True])
  qed
qed

lemma js_mul_NaN [simp]: "js_mul x NaN = NaN"
  by (cases x) simp_all

lemma luma_NaN: "luma NaN NaN NaN = NaN"
  by (simp add: luma_def)

lemma gray_loop_negative:
  assumes "i \<le> j" and "of_nat j < N" and "j < length q" and "shl2 j + 2 < 0"
  shows "fst (gray_loop N i q acc) ! j = 0"
  using assms
proof (induction N i q acc rule: gray_loop.induct)
  case (1 N i q acc)
  from "1.prems" have run: "of_nat i < N"
    by (meson le_less_trans of_nat_le_iff)
  note step = gray_loop_unfold [OF run, of q acc]
  show ?case
  proof (cases "i = j")
    case True
    have "stored q j = 0"
      using "1.prems"(4) by (simp add: stored_def readByte_def luma_NaN toUint8_def)
    then show ?thesis
      unfolding step using True "1.prems"(3) by (simp add: gray_loop_written)
  next
    case False
    with "1.prems" have "i + 1 \<le> j" "j < length (q[i := stored q i])"
      by simp_all
    then have "fst (gray_loop N (i + 1) (q[i := stored q i])
        (acc @ [Read (shl2 i), Read (shl2 i + 1), Read (shl2 i + 2), Write i])) ! j = 0"
      using "1.IH" [OF run refl refl] "1.prems"(2,4) by (simp add: stored_def)
    then show ?thesis
      unfolding step .
  qed
qed

lemma length_gray:
  assumes "length p = 4 * n"
  shows "length (gray p) = n"
proof -
  have N: "(of_nat (length p) / 4 :: rat) = of_nat n"
    using assms by simp
  show ?thesis
    unfolding gray_def Let_def N using assms by (simp add: js_trunc_def length_gray_loop)
qed

lemma gray_nth:
  assumes "length p = 4 * n" and "n \<le> 2 ^ 29" and "i < n"
  shows "gray p ! i = pixel_luma p i"
proof -
  have N: "(of_nat (length p) / 4 :: rat) = of_nat n"
    using assms(1) by simp
  have "fst (gray_loop (of_nat n) 0 p []) ! i = pixel_luma p i"
    using assms by (intro gray_loop_values [where n = n]) simp_all
  then show ?thesis
    using assms(3) by (simp add: gray_def Let_def N js_trunc_def)
qed

lemma gray_accesses_unwritten:
  assumes "length p = 4 * n" and "n \<le> 2 ^ 29"
  shows "reads_unwritten {} (gray_accesses p)"
proof -
  have N: "(of_nat (length p) / 4 :: rat) = of_nat n"
    using assms(1) by simp
  have "(of_nat n :: rat) \<le> of_nat (2 ^ 29)"
    using assms(2) unfolding of_nat_le_iff .
  then have "(of_nat n :: rat) \<le> 2 ^ 29"
    by simp
  then show ?thesis
    unfolding gray_accesses_def N by (intro gray_loop_accesses) simp_all
qed

lemma getFrame_gray_result:
  assumes "cfg_encoding (config this) = ''gray''"
    and "renderToRawPixels (renderer this) (set_visible (Bool (showDebugNode this)) sceneState)
           (scene_of sceneState) (camera this) = Inr \<lparr>elements = p, buffer = b\<rparr>"
  shows "result (getFrame printed this sceneState) =
           Inr \<lparr>frame_type = ''color'', data = ArrayBuffer (gray p), encoding = ''gray'',
                shape = [width (renderer this), height (renderer this), 1]\<rparr>"
  using assms by (simp add: result_getFrame getFrame_inner_def capture_def Let_def)

text \<open>
  C2, as the code has it. With the encoding "gray", when the renderer returns a byte array of
  \<open>4 n\<close> elements with \<open>n\<close> at most \<open>2 ^ 29\<close>, \<open>getFrame\<close> returns a frame with one channel whose
  data has \<open>n\<close> bytes; byte \<open>i\<close> is what storing \<open>0.2126 * R + 0.7152 * G + 0.0722 * B\<close> into a
  byte array gives, for the values of pixel \<open>i\<close> in the buffer as the renderer returned it,
  the products and sums being those of binary64 arithmetic; and no read of the loop is at an
  index the loop has written before.
\<close>

theorem getFrame_gray:
  assumes "cfg_encoding (config this) = ''gray''"
    and "renderToRawPixels (renderer this) (set_visible (Bool (showDebugNode this)) sceneState)
           (scene_of sceneState) (camera this) = Inr \<lparr>elements = p, buffer = b\<rparr>"
    and "length p = 4 * n" and "n \<le> 2 ^ 29"
  shows "result (getFrame printed this sceneState) =
           Inr \<lparr>frame_type = ''color'', data = ArrayBuffer (gray p), encoding = ''gray'',
                shape = [width (renderer this), height (renderer this), 1]\<rparr>
         \<and> length (gray p) = n
         \<and> (\<forall>i<n. gray p ! i =
               toUint8 (luma (number_of (unat (p ! (4 * i))))
                             (number_of (unat (p ! (4 * i + 1))))
                             (number_of (unat (p ! (4 * i + 2))))))
         \<and> (\<forall>k l j. k < l \<and> l < length (gray_accesses p) \<and> gray_accesses p ! k = Write j \<longrightarrow>
               gray_accesses p ! l \<noteq> Read (int j))"
proof (intro conjI allI impI)
  show "result (getFrame printed this sceneState) =
           Inr \<lparr>frame_type = ''color'', data = ArrayBuffer (gray p), encoding = ''gray'',
                shape = [width (renderer this), height (renderer this), 1]\<rparr>"
    using assms(1,2) by (rule getFrame_gray_result)
  show "length (gray p) = n"
    using assms(3) by (rule length_gray)
next
  fix i
  assume "i < n"
  with assms(3,4) have "gray p ! i = pixel_luma p i"
    by (rule gray_nth)
  then show "gray p ! i =
               toUint8 (luma (number_of (unat (p ! (4 * i))))
                             (number_of (unat (p ! (4 * i + 1))))
                             (number_of (unat (p ! (4 * i + 2)))))"
    by (simp add: pixel_luma_def)
next
  fix k l j
  assume "k < l \<and> l < length (gray_accesses p) \<and> gray_accesses p ! k = Write j"
  moreover have "reads_unwritten {} (gray_accesses p)"
    using assms(3,4) by (rule gray_accesses_unwritten)
  ultimately show "gray_accesses p ! l \<noteq> Read (int j)"
    using reads_unwritten_nth [of "{}" "gray_accesses p"] by blast
qed

lemma gray_accesses_example:
  "gray_accesses [255, 255, 255, 255, 0, 28, 152, 9] =
     [Read 0, Read 1, Read 2, Write 0, Read 4, Read 5, Read 6, Write 1]"
  by code_simp

theorem getFrame_gray_witness:
  "cfg_encoding (config (example_sensor ''gray'' 0)) = ''gray''
   \<and> renderToRawPixels (renderer (example_sensor ''gray'' 0))
        (set_visible (Bool (showDebugNode (example_sensor ''gray'' 0))) example_state)
        (scene_of example_state) (camera (example_sensor ''gray'' 0))
       = Inr \<lparr>elements = [255, 255, 255, 255, 0, 28, 152, 9],
              buffer = [255, 255, 255, 255, 0, 28, 152, 9]\<rparr>
   \<and> length [255, 255, 255, 255, 0, 28, 152, 9 :: byte] = 4 * 2
   \<and> (2 :: nat) \<le> 2 ^ 29
   \<and> result (getFrame example_printed (example_sensor ''gray'' 0) example_state) =
       Inr \<lparr>frame_type = ''color'', data = ArrayBuffer [254, 30], encoding = ''gray'',
            shape = [2, 1, 1]\<rparr>
   \<and> gray_accesses [255, 255, 255, 255, 0, 28, 152, 9] ! 3 = Write 0
   \<and> gray_accesses [255, 255, 255, 255, 0, 28, 152, 9] ! 4 = Read 4"
proof -
  let ?p = "[255, 255, 255, 255, 0, 28, 152, 9 :: byte]"
  have enc: "cfg_encoding (config (example_sensor ''gray'' 0)) = ''gray''"
    by (simp add: example_sensor_def example_config_def)
  have px: "renderToRawPixels (renderer (example_sensor ''gray'' 0))
        (set_visible (Bool (showDebugNode (example_sensor ''gray'' 0))) example_state)
        (scene_of example_state) (camera (example_sensor ''gray'' 0))
       = Inr \<lparr>elements = ?p, buffer = ?p\<rparr>"
    by (simp add: example_sensor_def example_renderer_def)
  have len: "length ?p = 4 * 2"
    by simp
  have n: "(2 :: nat) \<le> 2 ^ 29"
    by simp
  have wh: "width (renderer (example_sensor ''gray'' 0)) = 2"
      "height (renderer (example_sensor ''gray'' 0)) = 1"
    by (simp_all add: example_sensor_def example_renderer_def)
  show ?thesis
    using getFrame_gray [OF enc px len n] enc px
    by (simp add: gray_example gray_accesses_example wh)
qed

lemma luma_white:
  "toUint8 (luma (number_of 255) (number_of 255) (number_of 255)) = 254"
  by code_simp

lemma gray_white: "gray [255, 255, 255, 255] = [254]"
  by code_simp

lemma exact_luma_white: "exact_luma 255 255 255 = 255"
  by (simp add: exact_luma_def)

text \<open>
  C2 as stated fails in two ways. For a white pixel the code gives 254 (the binary64 sum is
  just below 255), where the formula in exact arithmetic gives 255. And for a buffer of
  \<open>2 ^ 31 + 4\<close> bytes, all 255, the byte for pixel \<open>2 ^ 29\<close> is 0, not the luma 254 of that
  pixel: there \<open>i << 2\<close> is \<open>- 2 ^ 31\<close>, the three reads give \<open>undefined\<close>, and NaN is
  stored as 0.
\<close>

theorem gray_counterexample:
  "gray [255, 255, 255, 255] = [254]
   \<and> exact_luma 255 255 255 = 255
   \<and> length (replicate (2 ^ 31 + 4) (255 :: byte)) = 4 * (2 ^ 29 + 1)
   \<and> gray (replicate (2 ^ 31 + 4) 255) ! (2 ^ 29) = 0
   \<and> toUint8 (luma (number_of (unat (255 :: byte))) (number_of (unat (255 :: byte)))
                 (number_of (unat (255 :: byte)))) = 254"
proof -
  let ?p = "replicate (2 ^ 31 + 4) (255 :: byte)"
  have N: "(of_nat (length ?p) / 4 :: rat) = 2 ^ 29 + 1"
    by simp
  have "fst (gray_loop (2 ^ 29 + 1) 0 ?p []) ! (2 ^ 29) = 0"
    by (rule gray_loop_negative) (simp_all add: shl2_def)
  then have "gray ?p ! (2 ^ 29) = 0"
    unfolding gray_def Let_def N by (simp add: js_trunc_def)
  then show ?thesis
    using gray_white exact_luma_white luma_white by simp
qed

end
